theory Spec2Isabelle
  imports Main "HOL-Library.Sublist"
begin

section \<open>Strings\<close>

text \<open>
  A JavaScript string is a sequence of UTF-16 code units. Literals of the source that are
  plain ASCII are written \<open>str ''...''\<close>; the others are spelled out as code units.
\<close>

type_synonym jsstring = "nat list"

definition str :: "string \<Rightarrow> jsstring" where
  "str s = map of_char s"

text \<open>\<^verbatim>\<open>WhiteSpace\<close> and \<^verbatim>\<open>LineTerminator\<close> of ECMAScript, the code units
  that \<^verbatim>\<open>String.prototype.trim\<close> strips.\<close>

definition isWhiteSpace :: "nat \<Rightarrow> bool" where
  "isWhiteSpace c =
     (c = 0x09 \<or> c = 0x0A \<or> c = 0x0B \<or> c = 0x0C \<or> c = 0x0D \<or> c = 0x20 \<or> c = 0xA0
      \<or> c = 0x1680 \<or> (0x2000 \<le> c \<and> c \<le> 0x200A) \<or> c = 0x2028 \<or> c = 0x2029
      \<or> c = 0x202F \<or> c = 0x205F \<or> c = 0x3000 \<or> c = 0xFEFF)"

definition trim :: "jsstring \<Rightarrow> jsstring" where
  "trim s = rev (dropWhile isWhiteSpace (rev (dropWhile isWhiteSpace s)))"

text \<open>\<^verbatim>\<open>s.startsWith(p)\<close>\<close>

definition startsWith :: "jsstring \<Rightarrow> jsstring \<Rightarrow> bool" where
  "startsWith s p = (take (length p) s = p)"

text \<open>\<^verbatim>\<open>s.includes(q)\<close>: \<open>q\<close> occurs in \<open>s\<close> at some position.\<close>

fun includes' :: "jsstring \<Rightarrow> jsstring \<Rightarrow> bool" where
  "includes' [] q = (q = [])"
| "includes' (c # s) q = (startsWith (c # s) q \<or> includes' s q)"

section \<open>Data model (types.ts)\<close>

datatype MediaType = image | video

datatype AppStatus = IDLE | LOADING | PROCESSING | ERROR | SUCCESS

text \<open>A \<^verbatim>\<open>Blob\<close> is its MIME type and its bytes; a \<^verbatim>\<open>File\<close> is a named blob.\<close>

record Blob =
  blob_type :: jsstring
  blob_bytes :: "nat list"

record File =
  file_name :: jsstring
  file_type :: jsstring
  file_bytes :: "nat list"

text \<open>
  \<^verbatim>\<open>interface MediaItem\<close>. The fields \<^verbatim>\<open>id\<close> and \<^verbatim>\<open>file\<close> are
  primed, since the unprimed names are taken. An optional field is an \<open>option\<close>.
\<close>

record MediaItem =
  id' :: jsstring
  type :: MediaType
  url :: jsstring
  file' :: File
  thumbnailUrl :: "jsstring option"
  name :: jsstring
  timestamp :: int
  aiDescription :: "jsstring option"
  isGenerated :: "bool option"
  folder :: jsstring

text \<open>
  \<^verbatim>\<open>Partial<MediaItem>\<close>: every field may be absent (\<open>None\<close>) or present with a
  value. For the optional fields the value itself may be \<^verbatim>\<open>undefined\<close>.
\<close>

record MediaItemPartial =
  p_id :: "jsstring option"
  p_type :: "MediaType option"
  p_url :: "jsstring option"
  p_file :: "File option"
  p_thumbnailUrl :: "jsstring option option"
  p_name :: "jsstring option"
  p_timestamp :: "int option"
  p_aiDescription :: "jsstring option option"
  p_isGenerated :: "bool option option"
  p_folder :: "jsstring option"

definition noUpdates :: MediaItemPartial where
  "noUpdates = \<lparr>p_id = None, p_type = None, p_url = None, p_file = None,
     p_thumbnailUrl = None, p_name = None, p_timestamp = None, p_aiDescription = None,
     p_isGenerated = None, p_folder = None\<rparr>"

definition override :: "'a option \<Rightarrow> 'a \<Rightarrow> 'a" where
  "override u old = (case u of None \<Rightarrow> old | Some v \<Rightarrow> v)"

text \<open>The object spread \<^verbatim>\<open>{ ...item, ...updates }\<close>.\<close>

definition spread :: "MediaItem \<Rightarrow> MediaItemPartial \<Rightarrow> MediaItem" where
  "spread item updates =
     \<lparr>id' = override (p_id updates) (id' item),
      type = override (p_type updates) (type item),
      url = override (p_url updates) (url item),
      file' = override (p_file updates) (file' item),
      thumbnailUrl = override (p_thumbnailUrl updates) (thumbnailUrl item),
      name = override (p_name updates) (name item),
      timestamp = override (p_timestamp updates) (timestamp item),
      aiDescription = override (p_aiDescription updates) (aiDescription item),
      isGenerated = override (p_isGenerated updates) (isGenerated item),
      folder = override (p_folder updates) (folder item)\<rparr>"

section \<open>Gallery state (App)\<close>

datatype TypeFilter = all | only MediaType

record AppState =
  mediaItems :: "MediaItem list"
  selectedItem :: "MediaItem option"
  dragActive :: bool
  folders :: "jsstring list"
  currentFolder :: jsstring
  searchQuery :: jsstring
  typeFilter :: TypeFilter
  isUploading :: bool
  newFolderInput :: jsstring
  showNewFolderInput :: bool

definition DEFAULT_FOLDER :: jsstring where
  "DEFAULT_FOLDER = str ''Genel''"

text \<open>The state of the first render. The third default folder is U+0130, U+015F.\<close>

definition initialState :: AppState where
  "initialState =
     \<lparr>mediaItems = [], selectedItem = None, dragActive = False,
      folders = [DEFAULT_FOLDER, str ''Favoriler'', [0x130, 0x15F], str ''Tatil''],
      currentFolder = DEFAULT_FOLDER, searchQuery = [], typeFilter = all,
      isUploading = False, newFolderInput = [], showNewFolderInput = False\<rparr>"

subsection \<open>handleUpdateItem\<close>

text \<open>
  \<^verbatim>\<open>handleUpdateItem(id, updates)\<close>. The list is updated through the functional
  form of the setter, so it acts on the state at the time of the call; the test
  \<^verbatim>\<open>selectedItem?.id === id\<close> reads the \<^verbatim>\<open>selectedItem\<close> of the render that
  created the handler, which is the argument \<open>sel\<close>.
\<close>

definition handleUpdateItem ::
  "MediaItem option \<Rightarrow> jsstring \<Rightarrow> MediaItemPartial \<Rightarrow> AppState \<Rightarrow> AppState" where
  "handleUpdateItem sel i updates st =
     (let st1 = st\<lparr>mediaItems :=
                   map (\<lambda>item. if id' item = i then spread item updates else item)
                     (mediaItems st)\<rparr>
      in if map_option id' sel = Some i
         then st1\<lparr>selectedItem :=
                (case selectedItem st1 of Some prev \<Rightarrow> Some (spread prev updates)
                 | None \<Rightarrow> None)\<rparr>
         else st1)"

subsection \<open>The browser and the SDK\<close>

text \<open>
  What a thrown or rejected value can be: an \<^verbatim>\<open>Error\<close> with its message, the error
  event of a \<^verbatim>\<open>FileReader\<close>, or a failure of \<^verbatim>\<open>fetch\<close> or of the SDK.
\<close>

datatype exn = Error jsstring | ReadFailed | RequestFailed jsstring

record InlineData =
  mimeType :: "jsstring option"
  data :: "jsstring option"

record Part =
  part_text :: "jsstring option"
  inlineData :: "InlineData option"

record Content =
  parts :: "Part list option"

record Candidate =
  content :: "Content option"

text \<open>\<open>response_text\<close> is the getter \<^verbatim>\<open>response.text\<close>.\<close>

record Response =
  candidates :: "Candidate list option"
  response_text :: "jsstring option"

text \<open>The argument of \<^verbatim>\<open>ai.models.generateContent\<close>: the model and the two parts.\<close>

record Request =
  model :: jsstring
  req_text :: jsstring
  req_mimeType :: jsstring
  req_data :: "jsstring option"

text \<open>
  Everything the code calls and does not define. \<open>uuidv4\<close>, \<open>createObjectURL\<close> and
  \<open>dateNow\<close> take the position of the call inside the handler that makes it (the index
  of the file or of the item being processed), so that each call may answer differently.
  \<open>generateContent\<close> takes the number of requests sent before. \<open>toLowerCase\<close> is
  \<^verbatim>\<open>String.prototype.toLowerCase\<close>, the Unicode case mapping of the engine.
\<close>

record World =
  uuidv4 :: "nat \<Rightarrow> jsstring"
  createObjectURL :: "nat \<Rightarrow> jsstring"
  dateNow :: "nat \<Rightarrow> int"
  fetchBlob :: "jsstring \<Rightarrow> exn + Blob"
  readAsDataURL :: "File \<Rightarrow> exn + jsstring"
  generateContent :: "nat \<Rightarrow> Request \<Rightarrow> exn + Response"
  toLowerCase :: "jsstring \<Rightarrow> jsstring"

subsection \<open>getFileType and handleFiles\<close>

definition getFileType :: "File \<Rightarrow> MediaType option" where
  "getFileType f =
     (if startsWith (file_type f) (str ''image/'') then Some image
      else if startsWith (file_type f) (str ''video/'') then Some video
      else None)"

text \<open>
  The \<^verbatim>\<open>forEach\<close> over the files: \<open>k\<close> is the index of the file, \<open>newItems\<close> the
  array being filled by \<^verbatim>\<open>push\<close>, \<open>cf\<close> the \<^verbatim>\<open>currentFolder\<close> of the closure.
\<close>

fun pushItems :: "World \<Rightarrow> jsstring \<Rightarrow> nat \<Rightarrow> File list \<Rightarrow> MediaItem list \<Rightarrow> MediaItem list" where
  "pushItems w cf k [] newItems = newItems"
| "pushItems w cf k (f # fs) newItems =
     pushItems w cf (Suc k) fs
       (case getFileType f of
          Some t \<Rightarrow>
            newItems @
              [\<lparr>id' = uuidv4 w k, type = t, url = createObjectURL w k, file' = f,
                thumbnailUrl = None, name = file_name f, timestamp = dateNow w k,
                aiDescription = None, isGenerated = None, folder = cf\<rparr>]
        | None \<Rightarrow> newItems)"

text \<open>
  \<^verbatim>\<open>handleFiles\<close> sets \<^verbatim>\<open>isUploading\<close>, waits 600 ms, and then builds the items
  and prepends them. \<open>cl\<close> is the state of the render in which it was called, whose
  \<^verbatim>\<open>currentFolder\<close> the closure holds; \<open>st\<close> is the state when the timer fires.
\<close>

definition handleFiles_start :: "AppState \<Rightarrow> AppState" where
  "handleFiles_start st = st\<lparr>isUploading := True\<rparr>"

definition handleFiles_resume :: "World \<Rightarrow> AppState \<Rightarrow> File list \<Rightarrow> AppState \<Rightarrow> AppState" where
  "handleFiles_resume w cl files st =
     st\<lparr>mediaItems := pushItems w (currentFolder cl) 0 files [] @ mediaItems st,
        isUploading := False\<rparr>"

text \<open>The whole of \<^verbatim>\<open>handleFiles\<close> when nothing else happens during the wait.\<close>

definition handleFiles :: "World \<Rightarrow> File list \<Rightarrow> AppState \<Rightarrow> AppState" where
  "handleFiles w files st = handleFiles_resume w st files (handleFiles_start st)"

subsection \<open>handleSaveGenerated\<close>

datatype SaveMode = new | overwrite

text \<open>
  The part of \<^verbatim>\<open>handleSaveGenerated\<close> after \<^verbatim>\<open>await base64ToBlob(base64Url)\<close>.
  A failed fetch lands in the \<^verbatim>\<open>catch\<close>, which only logs. \<open>cl\<close> is the state of
  the render in which the function was called: the \<^verbatim>\<open>find\<close> and the fallback folder
  read it. In the \<^verbatim>\<open>map\<close>, \<^verbatim>\<open>Date.now()\<close> is called at each matching item.
\<close>

definition generatedFile :: "jsstring \<Rightarrow> Blob \<Rightarrow> File" where
  "generatedFile nm blob =
     \<lparr>file_name = nm @ str ''.png'', file_type = str ''image/png'',
      file_bytes = blob_bytes blob\<rparr>"

definition newItem :: "World \<Rightarrow> AppState \<Rightarrow> jsstring \<Rightarrow> jsstring \<Rightarrow> Blob \<Rightarrow> MediaItem" where
  "newItem w cl originalId nm blob =
     (let originalItem = find (\<lambda>i. id' i = originalId) (mediaItems cl)
      in \<lparr>id' = uuidv4 w 0, type = image, url = createObjectURL w 0,
          file' = generatedFile nm blob, thumbnailUrl = None, name = nm,
          timestamp = dateNow w 0, aiDescription = None, isGenerated = Some True,
          folder = (case originalItem of Some orig \<Rightarrow> folder orig
                    | None \<Rightarrow> currentFolder cl)\<rparr>)"

definition handleSaveGenerated ::
  "World \<Rightarrow> AppState \<Rightarrow> jsstring \<Rightarrow> jsstring \<Rightarrow> jsstring \<Rightarrow> SaveMode \<Rightarrow> AppState \<Rightarrow> AppState" where
  "handleSaveGenerated w cl originalId base64Url nm mode st =
     (case fetchBlob w base64Url of
        Inl e \<Rightarrow> st
      | Inr blob \<Rightarrow>
          (let file = generatedFile nm blob;
               u = createObjectURL w 0
           in if mode = overwrite then
                st\<lparr>mediaItems :=
                     map (\<lambda>(k, item).
                            if id' item = originalId
                            then item\<lparr>url := u, file' := file, name := nm,
                                     isGenerated := Some True, timestamp := dateNow w k\<rparr>
                            else item)
                       (enumerate 0 (mediaItems st)),
                   selectedItem :=
                     (case selectedItem st of
                        Some prev \<Rightarrow>
                          Some (prev\<lparr>url := u, file' := file, name := nm,
                                     isGenerated := Some True\<rparr>)
                      | None \<Rightarrow> None)\<rparr>
              else st\<lparr>mediaItems := newItem w cl originalId nm blob # mediaItems st\<rparr>))"

subsection \<open>addFolder and filteredItems\<close>

definition addFolder :: "AppState \<Rightarrow> AppState" where
  "addFolder st =
     (if trim (newFolderInput st) \<noteq> [] \<and> trim (newFolderInput st) \<notin> set (folders st)
      then st\<lparr>folders := folders st @ [trim (newFolderInput st)],
              newFolderInput := [], showNewFolderInput := False\<rparr>
      else st)"

text \<open>The filter of the gallery, given the engine's \<^verbatim>\<open>toLowerCase\<close>.\<close>

definition matchesType :: "TypeFilter \<Rightarrow> MediaItem \<Rightarrow> bool" where
  "matchesType tf item = (case tf of all \<Rightarrow> True | only t \<Rightarrow> type item = t)"

definition filteredItems :: "(jsstring \<Rightarrow> jsstring) \<Rightarrow> AppState \<Rightarrow> MediaItem list" where
  "filteredItems lower st =
     filter (\<lambda>item.
        folder item = currentFolder st
        \<and> matchesType (typeFilter st) item
        \<and> includes' (lower (name item)) (lower (searchQuery st)))
       (mediaItems st)"

section \<open>The Gemini service (services/geminiService.ts)\<close>

text \<open>\<^verbatim>\<open>result.split(',')[1]\<close>: what lies between the first comma and the next one,
  \<^verbatim>\<open>undefined\<close> when there is no comma.\<close>

definition split_comma_1 :: "jsstring \<Rightarrow> jsstring option" where
  "split_comma_1 s =
     (if 0x2C \<in> set s
      then Some (takeWhile (\<lambda>c. c \<noteq> 0x2C) (tl (dropWhile (\<lambda>c. c \<noteq> 0x2C) s)))
      else None)"

definition fileToBase64 :: "World \<Rightarrow> File \<Rightarrow> exn + jsstring option" where
  "fileToBase64 w f =
     (case readAsDataURL w f of
        Inl e \<Rightarrow> Inl e
      | Inr result \<Rightarrow> Inr (split_comma_1 result))"

definition PNG_PREFIX :: jsstring where
  "PNG_PREFIX = str ''data:image/png;base64,''"

text \<open>The message \<^verbatim>\<open>"G\<close>U+00F6\<^verbatim>\<open>rsel olu\<close>U+015F\<^verbatim>\<open>turulamad\<close>U+0131\<^verbatim>\<open>. L\<close>U+00FC\<^verbatim>\<open>tfen tekrar deneyin."\<close>\<close>

definition NO_IMAGE :: jsstring where
  "NO_IMAGE =
     str ''G'' @ [0xF6] @ str ''rsel olu'' @ [0x15F] @ str ''turulamad'' @ [0x131]
     @ str ''. L'' @ [0xFC] @ str ''tfen tekrar deneyin.''"

text \<open>The loop \<^verbatim>\<open>for (const part of candidates[0].content.parts)\<close>.\<close>

fun firstInlineImage :: "Part list \<Rightarrow> jsstring option" where
  "firstInlineImage [] = None"
| "firstInlineImage (part # rest) =
     (case inlineData part of
        None \<Rightarrow> firstInlineImage rest
      | Some d \<Rightarrow>
          (case data d of
             None \<Rightarrow> firstInlineImage rest
           | Some bytes \<Rightarrow>
               if bytes \<noteq> [] then Some (PNG_PREFIX @ bytes) else firstInlineImage rest))"

text \<open>What \<^verbatim>\<open>editImageWithGemini\<close> does with the response: lines 57 to 66.\<close>

definition imageOfResponse :: "Response \<Rightarrow> exn + jsstring" where
  "imageOfResponse response =
     (case candidates response of
        Some (c # _) \<Rightarrow>
          (case content c of
             Some ct \<Rightarrow>
               (case parts ct of
                  Some ps \<Rightarrow>
                    (case firstInlineImage ps of
                       Some u \<Rightarrow> Inr u
                     | None \<Rightarrow> Inl (Error NO_IMAGE))
                | None \<Rightarrow> Inl (Error NO_IMAGE))
           | None \<Rightarrow> Inl (Error NO_IMAGE))
      | _ \<Rightarrow> Inl (Error NO_IMAGE))"

text \<open>
  The service functions take the list of the requests sent so far and return it with
  theirs added. The \<^verbatim>\<open>catch\<close> of each logs and throws the same error again.
\<close>

definition editImageWithGemini ::
  "World \<Rightarrow> File \<Rightarrow> jsstring \<Rightarrow> Request list \<Rightarrow> (exn + jsstring) \<times> Request list" where
  "editImageWithGemini w imageFile prompt sent =
     (case fileToBase64 w imageFile of
        Inl e \<Rightarrow> (Inl e, sent)
      | Inr base64Image \<Rightarrow>
          (let request =
                 \<lparr>model = str ''gemini-2.5-flash-image'',
                  req_text = prompt @ str '' (Return only the image, high quality)'',
                  req_mimeType = file_type imageFile, req_data = base64Image\<rparr>
           in case generateContent w (length sent) request of
                Inl e \<Rightarrow> (Inl e, sent @ [request])
              | Inr response \<Rightarrow> (imageOfResponse response, sent @ [request])))"

definition analyzeVideoWithGemini ::
  "World \<Rightarrow> File \<Rightarrow> jsstring \<Rightarrow> Request list \<Rightarrow> (exn + jsstring) \<times> Request list" where
  "analyzeVideoWithGemini w videoFile prompt sent =
     (case fileToBase64 w videoFile of
        Inl e \<Rightarrow> (Inl e, sent)
      | Inr base64Video \<Rightarrow>
          (let request =
                 \<lparr>model = str ''gemini-2.5-flash-latest'', req_text = prompt,
                  req_mimeType = file_type videoFile, req_data = base64Video\<rparr>
           in case generateContent w (length sent) request of
                Inl e \<Rightarrow> (Inl e, sent @ [request])
              | Inr response \<Rightarrow>
                  (Inr (case response_text response of
                          Some t \<Rightarrow> if t \<noteq> [] then t else str ''Video analiz edilemedi.''
                        | None \<Rightarrow> str ''Video analiz edilemedi.''),
                   sent @ [request])))"

section \<open>The modal (components/MediaModal)\<close>

record ModalState =
  prompt :: jsstring
  status :: AppStatus
  resultText :: "jsstring option"
  generatedImageUrl :: "jsstring option"
  isEditingName :: bool
  tempName :: jsstring
  showSaveOptions :: bool
  saveName :: jsstring

text \<open>The two texts \<^verbatim>\<open>handleAction\<close> shows: the one of line 61 and the one of line 70.\<close>

definition EDIT_DONE :: jsstring where
  "EDIT_DONE =
     str ''G'' @ [0xF6] @ str ''rsel ba'' @ [0x15F] @ str ''ar'' @ [0x131] @ str ''yla d''
     @ [0xFC] @ str ''zenlendi! Kaydetme se'' @ [0xE7] @ str ''enekleri i'' @ [0xE7]
     @ str ''in '' @ [0x27] @ str ''Kaydet'' @ [0x27] @ str '' butonunu kullan'' @ [0x131]
     @ str ''n.''"

definition GENERIC_ERROR :: jsstring where
  "GENERIC_ERROR =
     str ''Bir hata olu'' @ [0x15F] @ str ''tu. L'' @ [0xFC]
     @ str ''tfen tekrar deneyin. (Dosya boyutu '' @ [0xE7] @ str ''ok b'' @ [0xFC]
     @ str ''y'' @ [0xFC] @ str ''k olabilir)''"

text \<open>\<^verbatim>\<open>customPrompt || prompt\<close>\<close>

definition promptToUse :: "jsstring option \<Rightarrow> ModalState \<Rightarrow> jsstring" where
  "promptToUse customPrompt m =
     (case customPrompt of
        Some p \<Rightarrow> if p \<noteq> [] then p else prompt m
      | None \<Rightarrow> prompt m)"

text \<open>The call inside the \<^verbatim>\<open>try\<close> of \<^verbatim>\<open>handleAction\<close>, chosen by the type of the item.\<close>

definition callGemini ::
  "World \<Rightarrow> MediaItem \<Rightarrow> jsstring \<Rightarrow> Request list \<Rightarrow> (exn + jsstring) \<times> Request list" where
  "callGemini w item p sent =
     (if type item = image then editImageWithGemini w (file' item) p sent
      else analyzeVideoWithGemini w (file' item) p sent)"

text \<open>
  The part of \<^verbatim>\<open>handleAction\<close> after the \<^verbatim>\<open>await\<close>, with the \<^verbatim>\<open>catch\<close>:
  \<open>outcome\<close> is what the awaited call gave, \<open>item\<close> the prop and \<open>cl\<close> the state of
  the render in which \<^verbatim>\<open>handleAction\<close> was called (its \<^verbatim>\<open>onUpdateItem\<close> is the
  \<^verbatim>\<open>handleUpdateItem\<close> of that render).
\<close>

definition handleAction_resume ::
  "AppState \<Rightarrow> MediaItem \<Rightarrow> exn + jsstring \<Rightarrow> AppState \<times> ModalState \<Rightarrow> AppState \<times> ModalState" where
  "handleAction_resume cl item outcome s =
     (case outcome of
        Inr v \<Rightarrow>
          (if type item = image
           then (fst s, (snd s)\<lparr>generatedImageUrl := Some v, resultText := Some EDIT_DONE,
                              status := SUCCESS\<rparr>)
           else (handleUpdateItem (selectedItem cl) (id' item)
                   (noUpdates\<lparr>p_aiDescription := Some (Some v)\<rparr>) (fst s),
                 (snd s)\<lparr>resultText := Some v, status := SUCCESS\<rparr>))
      | Inl error \<Rightarrow> (fst s, (snd s)\<lparr>resultText := Some GENERIC_ERROR, status := ERROR\<rparr>))"

text \<open>
  \<^verbatim>\<open>handleAction\<close> when nothing else happens during the call: the state is the gallery,
  the modal and the requests sent.
\<close>

definition handleAction ::
  "World \<Rightarrow> MediaItem \<Rightarrow> jsstring option \<Rightarrow> AppState \<times> ModalState \<times> Request list
     \<Rightarrow> AppState \<times> ModalState \<times> Request list" where
  "handleAction w item customPrompt s =
     (case s of (app, m, sent) \<Rightarrow>
        if trim (promptToUse customPrompt m) = [] then s
        else
          (let r = callGemini w item (promptToUse customPrompt m) sent;
               s' = handleAction_resume app item (fst r) (app, m\<lparr>status := PROCESSING\<rparr>)
           in (fst s', snd s', snd r)))"

text \<open>\<^verbatim>\<open>handleRename\<close> and \<^verbatim>\<open>handleFolderChange\<close>; \<open>item\<close> is the prop.\<close>

definition handleRename :: "MediaItem \<Rightarrow> AppState \<times> ModalState \<Rightarrow> AppState \<times> ModalState" where
  "handleRename item s =
     (case s of (app, m) \<Rightarrow>
        if trim (tempName m) \<noteq> []
        then (handleUpdateItem (selectedItem app) (id' item)
                (noUpdates\<lparr>p_name := Some (tempName m)\<rparr>) app,
              m\<lparr>isEditingName := False\<rparr>)
        else s)"

definition handleFolderChange :: "MediaItem \<Rightarrow> jsstring \<Rightarrow> AppState \<Rightarrow> AppState" where
  "handleFolderChange item v app =
     handleUpdateItem (selectedItem app) (id' item) (noUpdates\<lparr>p_folder := Some v\<rparr>) app"

text \<open>
  \<^verbatim>\<open>executeSave\<close>: the arguments of the call of \<^verbatim>\<open>onSaveGenerated\<close>, when it is
  made, and the new state of the modal.
\<close>

definition executeSave ::
  "MediaItem \<Rightarrow> SaveMode \<Rightarrow> ModalState
     \<Rightarrow> (jsstring \<times> jsstring \<times> jsstring \<times> SaveMode) option \<times> ModalState" where
  "executeSave item mode m =
     (case generatedImageUrl m of
        Some u \<Rightarrow>
          if u \<noteq> [] \<and> trim (saveName m) \<noteq> []
          then (Some (id' item, u, saveName m, mode),
                if mode = overwrite
                then m\<lparr>showSaveOptions := False, generatedImageUrl := None\<rparr>
                else m\<lparr>showSaveOptions := False\<rparr>)
          else (None, m)
      | None \<Rightarrow> (None, m))"

section \<open>The gallery as a transition system\<close>

text \<open>
  The handlers run one at a time on the event loop, and an \<^verbatim>\<open>await\<close> splits a handler
  in two: the call, which records what its closure holds, and the rest, which runs later
  on the state of that later moment. A pending call is a \<open>Task\<close>; its first component is
  the state of the render in which the call was made.
\<close>

datatype Task =
    UploadTask AppState "File list"
  | SaveTask AppState jsstring jsstring jsstring SaveMode
  | ActionTask AppState MediaItem jsstring ModalState

fun closureOf :: "Task \<Rightarrow> AppState" where
  "closureOf (UploadTask cl files) = cl"
| "closureOf (SaveTask cl originalId base64Url nm mode) = cl"
| "closureOf (ActionTask cl item p m) = cl"

record System =
  app :: AppState
  pending :: "Task list"
  requests :: "Request list"

definition initialSystem :: System where
  "initialSystem = \<lparr>app = initialState, pending = [], requests = []\<rparr>"

text \<open>
  The events are the handlers the JSX binds. The modal is mounted when \<^verbatim>\<open>selectedItem\<close>
  is set, with that item as its prop; its own state only feeds arguments to the calls it
  makes, so an event of the modal carries the state the modal is in, whatever it is. The
  folder buttons and the options of the folder menu are made from \<^verbatim>\<open>folders\<close>, so
  these events carry an index into it; \<open>ClickItem\<close> carries an index into
  \<^verbatim>\<open>filteredItems\<close>. \<open>Settle k\<close> lets the \<open>k\<close>-th pending call go on.
\<close>

datatype Event =
    DragEvent jsstring
  | DropFiles "File list"
  | ChangeFiles "File list"
  | ClickFolder nat
  | TypeNewFolder jsstring
  | BlurNewFolder
  | ClickShowNewFolder
  | AddFolder
  | TypeSearch jsstring
  | ClickTypeFilter TypeFilter
  | ClickItem nat
  | CloseModal
  | Rename ModalState
  | FolderChange nat
  | ExecuteSave ModalState SaveMode
  | Action ModalState "jsstring option"
  | Settle nat

definition handleDrag :: "jsstring \<Rightarrow> AppState \<Rightarrow> AppState" where
  "handleDrag ty st =
     (if ty = str ''dragenter'' \<or> ty = str ''dragover'' then st\<lparr>dragActive := True\<rparr>
      else if ty = str ''dragleave'' then st\<lparr>dragActive := False\<rparr>
      else st)"

text \<open>
  The call of \<^verbatim>\<open>handleFiles\<close> up to its \<^verbatim>\<open>await\<close>. Of its closure the rest only
  reads \<^verbatim>\<open>currentFolder\<close>; the memoised \<^verbatim>\<open>handleDrop\<close> is made anew whenever
  \<^verbatim>\<open>currentFolder\<close> changes, so the folder it holds is the one of the state.
\<close>

definition callHandleFiles :: "File list \<Rightarrow> System \<Rightarrow> System" where
  "callHandleFiles files s =
     s\<lparr>app := handleFiles_start (app s),
       pending := pending s @ [UploadTask (app s) files]\<rparr>"

text \<open>The rest of a pending call.\<close>

definition settle :: "World \<Rightarrow> Task \<Rightarrow> System \<Rightarrow> System" where
  "settle w t s =
     (case t of
        UploadTask cl files \<Rightarrow> s\<lparr>app := handleFiles_resume w cl files (app s)\<rparr>
      | SaveTask cl originalId base64Url nm mode \<Rightarrow>
          s\<lparr>app := handleSaveGenerated w cl originalId base64Url nm mode (app s)\<rparr>
      | ActionTask cl item p m \<Rightarrow>
          (let r = callGemini w item p (requests s)
           in s\<lparr>app := fst (handleAction_resume cl item (fst r) (app s, m)),
                 requests := snd r\<rparr>))"

definition step :: "World \<Rightarrow> Event \<Rightarrow> System \<Rightarrow> System" where
  "step w e s =
     (case e of
        DragEvent ty \<Rightarrow> s\<lparr>app := handleDrag ty (app s)\<rparr>
      | DropFiles files \<Rightarrow>
          (let s1 = s\<lparr>app := (app s)\<lparr>dragActive := False\<rparr>\<rparr>
           in if files \<noteq> [] then callHandleFiles files s1 else s1)
      | ChangeFiles files \<Rightarrow> if files \<noteq> [] then callHandleFiles files s else s
      | ClickFolder k \<Rightarrow>
          if k < length (folders (app s))
          then s\<lparr>app := (app s)\<lparr>currentFolder := folders (app s) ! k\<rparr>\<rparr>
          else s
      | TypeNewFolder v \<Rightarrow> s\<lparr>app := (app s)\<lparr>newFolderInput := v\<rparr>\<rparr>
      | BlurNewFolder \<Rightarrow>
          if newFolderInput (app s) = []
          then s\<lparr>app := (app s)\<lparr>showNewFolderInput := False\<rparr>\<rparr>
          else s
      | ClickShowNewFolder \<Rightarrow> s\<lparr>app := (app s)\<lparr>showNewFolderInput := True\<rparr>\<rparr>
      | AddFolder \<Rightarrow> s\<lparr>app := addFolder (app s)\<rparr>
      | TypeSearch v \<Rightarrow> s\<lparr>app := (app s)\<lparr>searchQuery := v\<rparr>\<rparr>
      | ClickTypeFilter tf \<Rightarrow> s\<lparr>app := (app s)\<lparr>typeFilter := tf\<rparr>\<rparr>
      | ClickItem k \<Rightarrow>
          if k < length (filteredItems (toLowerCase w) (app s))
          then s\<lparr>app := (app s)\<lparr>selectedItem :=
                            Some (filteredItems (toLowerCase w) (app s) ! k)\<rparr>\<rparr>
          else s
      | CloseModal \<Rightarrow> s\<lparr>app := (app s)\<lparr>selectedItem := None\<rparr>\<rparr>
      | Rename m \<Rightarrow>
          (case selectedItem (app s) of
             Some item \<Rightarrow> s\<lparr>app := fst (handleRename item (app s, m))\<rparr>
           | None \<Rightarrow> s)
      | FolderChange k \<Rightarrow>
          (case selectedItem (app s) of
             Some item \<Rightarrow>
               if k < length (folders (app s))
               then s\<lparr>app := handleFolderChange item (folders (app s) ! k) (app s)\<rparr>
               else s
           | None \<Rightarrow> s)
      | ExecuteSave m mode \<Rightarrow>
          (case selectedItem (app s) of
             Some item \<Rightarrow>
               (case fst (executeSave item mode m) of
                  Some (originalId, base64Url, nm, md) \<Rightarrow>
                    s\<lparr>pending := pending s @ [SaveTask (app s) originalId base64Url nm md]\<rparr>
                | None \<Rightarrow> s)
           | None \<Rightarrow> s)
      | Action m customPrompt \<Rightarrow>
          (case selectedItem (app s) of
             Some item \<Rightarrow>
               if trim (promptToUse customPrompt m) = [] then s
               else s\<lparr>pending := pending s @
                        [ActionTask (app s) item (promptToUse customPrompt m)
                           (m\<lparr>status := PROCESSING\<rparr>)]\<rparr>
           | None \<Rightarrow> s)
      | Settle k \<Rightarrow>
          if k < length (pending s)
          then settle w (pending s ! k)
                 (s\<lparr>pending := take k (pending s) @ drop (Suc k) (pending s)\<rparr>)
          else s)"

text \<open>A run: the events in order, each with what the world answers during it.\<close>

fun run :: "(World \<times> Event) list \<Rightarrow> System \<Rightarrow> System" where
  "run [] s = s"
| "run ((w, e) # rest) s = run rest (step w e s)"

text \<open>The items a pending call creates when it goes on: those of an upload, or the
  one of a save as new whose fetch succeeds.\<close>

definition createdBy :: "World \<Rightarrow> Task \<Rightarrow> MediaItem list" where
  "createdBy w t =
     (case t of
        UploadTask cl files \<Rightarrow> pushItems w (currentFolder cl) 0 files []
      | SaveTask cl originalId base64Url nm mode \<Rightarrow>
          (case fetchBlob w base64Url of
             Inl e \<Rightarrow> []
           | Inr blob \<Rightarrow> if mode = overwrite then [] else [newItem w cl originalId nm blob])
      | ActionTask cl item p m \<Rightarrow> [])"

definition created :: "World \<Rightarrow> Event \<Rightarrow> System \<Rightarrow> MediaItem list" where
  "created w e s =
     (case e of
        Settle k \<Rightarrow> if k < length (pending s) then createdBy w (pending s ! k) else []
      | _ \<Rightarrow> [])"

text \<open>Folder membership, the invariant of the gallery.\<close>

definition foldersCover :: "jsstring list \<Rightarrow> AppState \<Rightarrow> bool" where
  "foldersCover fs st =
     (currentFolder st \<in> set fs
      \<and> (\<forall>item \<in> set (mediaItems st). folder item \<in> set fs)
      \<and> (case selectedItem st of Some item \<Rightarrow> folder item \<in> set fs | None \<Rightarrow> True))"

definition invariant :: "System \<Rightarrow> bool" where
  "invariant s =
     (foldersCover (folders (app s)) (app s)
      \<and> (\<forall>t \<in> set (pending s). foldersCover (folders (app s)) (closureOf t)))"

section \<open>Example values\<close>

definition exampleWorld :: World where
  "exampleWorld =
     \<lparr>uuidv4 = (\<lambda>k. str ''id-'' @ [48 + k]),
      createObjectURL = (\<lambda>k. str ''blob:'' @ [48 + k]),
      dateNow = (\<lambda>k. 1000 + int k),
      fetchBlob = (\<lambda>u. Inr \<lparr>blob_type = str ''image/png'', blob_bytes = [137, 80]\<rparr>),
      readAsDataURL = (\<lambda>f. Inr (str ''data:image/png;base64,AAAA'')),
      generateContent = (\<lambda>n r. Inl (RequestFailed (str ''503''))),
      toLowerCase = map (\<lambda>c. if 65 \<le> c \<and> c \<le> 90 then c + 32 else c)\<rparr>"

definition exampleFile :: "string \<Rightarrow> string \<Rightarrow> File" where
  "exampleFile n t = \<lparr>file_name = str n, file_type = str t, file_bytes = []\<rparr>"

definition exampleItem :: "string \<Rightarrow> string \<Rightarrow> MediaType \<Rightarrow> jsstring \<Rightarrow> MediaItem" where
  "exampleItem i n t f =
     \<lparr>id' = str i, type = t, url = str ''blob:x'', file' = exampleFile n ''image/png'',
      thumbnailUrl = None, name = str n, timestamp = 1, aiDescription = None,
      isGenerated = None, folder = f\<rparr>"

text \<open>The files \<^verbatim>\<open>getFileType\<close> has a type for: the MIME type starts with
  \<^verbatim>\<open>image/\<close> or with \<^verbatim>\<open>video/\<close>.\<close>

definition accepted :: "File \<Rightarrow> bool" where
  "accepted f =
     (startsWith (file_type f) (str ''image/'') \<or> startsWith (file_type f) (str ''video/''))"

text \<open>No id of the list is lost from \<open>st\<close> to \<open>st'\<close>, and the list is not shorter.\<close>

definition idsKept :: "AppState \<Rightarrow> AppState \<Rightarrow> bool" where
  "idsKept st st' =
     (set (map id' (mediaItems st)) \<subseteq> set (map id' (mediaItems st'))
      \<and> length (mediaItems st) \<le> length (mediaItems st'))"

text \<open>
  What the gallery is to show, in the words of the description: the item is in the current
  folder, its type is the one of the filter unless the filter is \<^verbatim>\<open>all\<close>, and the
  lower-cased query occurs in its lower-cased name.
\<close>

definition shown :: "(jsstring \<Rightarrow> jsstring) \<Rightarrow> AppState \<Rightarrow> MediaItem \<Rightarrow> bool" where
  "shown lower st item =
     (folder item = currentFolder st
      \<and> (typeFilter st = all \<or> typeFilter st = only (type item))
      \<and> (\<exists>pre post. lower (name item) = pre @ lower (searchQuery st) @ post))"

definition exampleModal :: "string \<Rightarrow> ModalState" where
  "exampleModal p =
     \<lparr>prompt = str p, status = IDLE, resultText = None, generatedImageUrl = None,
      isEditingName = False, tempName = str ''cat'', showSaveOptions = False,
      saveName = str ''Edited-cat''\<rparr>"

definition exampleResponse :: "Part list \<Rightarrow> Response" where
  "exampleResponse ps =
     \<lparr>candidates = Some [\<lparr>content = Some \<lparr>parts = Some ps\<rparr>\<rparr>], response_text = None\<rparr>"

definition textPart :: "string \<Rightarrow> Part" where
  "textPart t = \<lparr>part_text = Some (str t), inlineData = None\<rparr>"

definition inlinePart :: "string \<Rightarrow> string \<Rightarrow> Part" where
  "inlinePart mt d =
     \<lparr>part_text = None, inlineData = Some \<lparr>mimeType = Some (str mt), data = Some (str d)\<rparr>\<rparr>"

text \<open>The parts of the first candidate, none when any link of the chain is missing, and
  the inline data of a part, empty when it has none.\<close>

definition firstCandidateParts :: "Response \<Rightarrow> Part list" where
  "firstCandidateParts response =
     (case candidates response of
        Some (c # _) \<Rightarrow>
          (case content c of
             Some ct \<Rightarrow> (case parts ct of Some ps \<Rightarrow> ps | None \<Rightarrow> [])
           | None \<Rightarrow> [])
      | _ \<Rightarrow> [])"

definition inlineBytes :: "Part \<Rightarrow> jsstring" where
  "inlineBytes part =
     (case inlineData part of
        Some d \<Rightarrow> (case data d of Some bytes \<Rightarrow> bytes | None \<Rightarrow> [])
      | None \<Rightarrow> [])"

text \<open>The same part with another declared MIME type.\<close>

definition withMimeType :: "jsstring option \<Rightarrow> Part \<Rightarrow> Part" where
  "withMimeType mt part =
     part\<lparr>inlineData := (case inlineData part of Some d \<Rightarrow> Some (d\<lparr>mimeType := mt\<rparr>)
                          | None \<Rightarrow> None)\<rparr>"

section \<open>Properties\<close>

lemma mediaItems_handleUpdateItem:
  "mediaItems (handleUpdateItem sel i u st) =
     map (\<lambda>item. if id' item = i then spread item u else item) (mediaItems st)"
  by (simp add: handleUpdateItem_def Let_def)

lemma spread_absent:
  "p_id u = None \<Longrightarrow> id' (spread item u) = id' item"
  "p_type u = None \<Longrightarrow> type (spread item u) = type item"
  "p_url u = None \<Longrightarrow> url (spread item u) = url item"
  "p_file u = None \<Longrightarrow> file' (spread item u) = file' item"
  "p_thumbnailUrl u = None \<Longrightarrow> thumbnailUrl (spread item u) = thumbnailUrl item"
  "p_name u = None \<Longrightarrow> name (spread item u) = name item"
  "p_timestamp u = None \<Longrightarrow> timestamp (spread item u) = timestamp item"
  "p_aiDescription u = None \<Longrightarrow> aiDescription (spread item u) = aiDescription item"
  "p_isGenerated u = None \<Longrightarrow> isGenerated (spread item u) = isGenerated item"
  "p_folder u = None \<Longrightarrow> folder (spread item u) = folder item"
  by (simp_all add: spread_def override_def)

lemma map_if_unchanged:
  "\<forall>x \<in> set xs. \<not> P x \<Longrightarrow> map (\<lambda>x. if P x then f x else x) xs = xs"
  by (induction xs) auto

subsection \<open>C9: the frame of handleUpdateItem\<close>

text \<open>
  Claim C9. \<^verbatim>\<open>handleUpdateItem(id, updates)\<close> keeps the length and the order of
  \<^verbatim>\<open>mediaItems\<close>: position by position, an item whose id differs from \<open>i\<close> is the
  same item afterwards, and an item whose id is \<open>i\<close> becomes its spread with the updates,
  in which every field absent from the updates keeps its value. When no item has the id,
  the list is the same list.
\<close>

theorem handleUpdateItem_frame:
  "length (mediaItems (handleUpdateItem sel i u st)) = length (mediaItems st)
   \<and> (\<forall>k < length (mediaItems st).
         mediaItems (handleUpdateItem sel i u st) ! k =
           (if id' (mediaItems st ! k) = i then spread (mediaItems st ! k) u
            else mediaItems st ! k))
   \<and> ((\<forall>item \<in> set (mediaItems st). id' item \<noteq> i) \<longrightarrow>
         mediaItems (handleUpdateItem sel i u st) = mediaItems st)
   \<and> (p_id u = None \<longrightarrow> id' (spread item u) = id' item)
   \<and> (p_type u = None \<longrightarrow> type (spread item u) = type item)
   \<and> (p_url u = None \<longrightarrow> url (spread item u) = url item)
   \<and> (p_file u = None \<longrightarrow> file' (spread item u) = file' item)
   \<and> (p_thumbnailUrl u = None \<longrightarrow> thumbnailUrl (spread item u) = thumbnailUrl item)
   \<and> (p_name u = None \<longrightarrow> name (spread item u) = name item)
   \<and> (p_timestamp u = None \<longrightarrow> timestamp (spread item u) = timestamp item)
   \<and> (p_aiDescription u = None \<longrightarrow> aiDescription (spread item u) = aiDescription item)
   \<and> (p_isGenerated u = None \<longrightarrow> isGenerated (spread item u) = isGenerated item)
   \<and> (p_folder u = None \<longrightarrow> folder (spread item u) = folder item)"
proof -
  have len: "length (mediaItems (handleUpdateItem sel i u st)) = length (mediaItems st)"
    by (simp add: mediaItems_handleUpdateItem)
  have pointwise: "\<forall>k < length (mediaItems st).
         mediaItems (handleUpdateItem sel i u st) ! k =
           (if id' (mediaItems st ! k) = i then spread (mediaItems st ! k) u
            else mediaItems st ! k)"
    by (simp add: mediaItems_handleUpdateItem)
  have nomatch: "(\<forall>item \<in> set (mediaItems st). id' item \<noteq> i) \<longrightarrow>
         mediaItems (handleUpdateItem sel i u st) = mediaItems st"
    by (simp add: mediaItems_handleUpdateItem map_if_unchanged)
  from len pointwise nomatch spread_absent [of u item] show ?thesis
    by blast
qed

text \<open>
  At a gallery of two items, renaming \<open>a\<close> changes the name of the first item and nothing
  else; an update for the id \<open>z\<close>, which no item has, changes nothing.
\<close>

theorem handleUpdateItem_frame_witness:
  "mediaItems (handleUpdateItem None (str ''a'') (noUpdates\<lparr>p_name := Some (str ''lion'')\<rparr>)
      (initialState\<lparr>mediaItems := [exampleItem ''a'' ''cat'' image DEFAULT_FOLDER,
                                     exampleItem ''b'' ''dog'' video DEFAULT_FOLDER]\<rparr>))
   = [(exampleItem ''a'' ''cat'' image DEFAULT_FOLDER)\<lparr>name := str ''lion''\<rparr>,
      exampleItem ''b'' ''dog'' video DEFAULT_FOLDER]
   \<and> mediaItems (handleUpdateItem None (str ''z'') (noUpdates\<lparr>p_name := Some (str ''lion'')\<rparr>)
      (initialState\<lparr>mediaItems := [exampleItem ''a'' ''cat'' image DEFAULT_FOLDER,
                                     exampleItem ''b'' ''dog'' video DEFAULT_FOLDER]\<rparr>))
   = [exampleItem ''a'' ''cat'' image DEFAULT_FOLDER,
      exampleItem ''b'' ''dog'' video DEFAULT_FOLDER]"
  using handleUpdateItem_frame [of None "str ''a''" "noUpdates\<lparr>p_name := Some (str ''lion'')\<rparr>"
      "initialState\<lparr>mediaItems := [exampleItem ''a'' ''cat'' image DEFAULT_FOLDER,
                                     exampleItem ''b'' ''dog'' video DEFAULT_FOLDER]\<rparr>"
      "exampleItem ''a'' ''cat'' image DEFAULT_FOLDER"]
    handleUpdateItem_frame [of None "str ''z''" "noUpdates\<lparr>p_name := Some (str ''lion'')\<rparr>"
      "initialState\<lparr>mediaItems := [exampleItem ''a'' ''cat'' image DEFAULT_FOLDER,
                                     exampleItem ''b'' ''dog'' video DEFAULT_FOLDER]\<rparr>"
      "exampleItem ''a'' ''cat'' image DEFAULT_FOLDER"]
  by (simp add: handleUpdateItem_def spread_def override_def noUpdates_def exampleItem_def str_def)

subsection \<open>C1: what an upload adds\<close>

lemma getFileType_None: "getFileType f = None \<longleftrightarrow> \<not> accepted f"
  by (simp add: getFileType_def accepted_def)

lemma pushItems_acc: "pushItems w cf k files acc = acc @ pushItems w cf k files []"
proof (induction files arbitrary: k acc)
  case Nil
  show ?case by simp
next
  case (Cons f fs)
  show ?case
  proof (cases "getFileType f")
    case None
    then show ?thesis using Cons.IH [of "Suc k" acc] by simp
  next
    case (Some t)
    then show ?thesis
      using Cons.IH [of "Suc k" "acc @ [\<lparr>id' = uuidv4 w k, type = t, url = createObjectURL w k, file' = f,
                thumbnailUrl = None, name = file_name f, timestamp = dateNow w k,
                aiDescription = None, isGenerated = None, folder = cf\<rparr>]"]
        Cons.IH [of "Suc k" "[\<lparr>id' = uuidv4 w k, type = t, url = createObjectURL w k, file' = f,
                thumbnailUrl = None, name = file_name f, timestamp = dateNow w k,
                aiDescription = None, isGenerated = None, folder = cf\<rparr>]"]
      by simp
  qed
qed

lemma pushItems_files: "map file' (pushItems w cf k files []) = filter accepted files"
proof (induction files arbitrary: k)
  case Nil
  show ?case by simp
next
  case (Cons f fs)
  show ?case
  proof (cases "getFileType f")
    case None
    then have "\<not> accepted f" using getFileType_None [of f] by simp
    with None show ?thesis using Cons.IH [of "Suc k"] by simp
  next
    case (Some t)
    then have "accepted f" using getFileType_None [of f] by auto
    with Some show ?thesis
      using Cons.IH [of "Suc k"] pushItems_acc [of w cf "Suc k" fs "[x]" for x] by simp
  qed
qed

lemma pushItems_folder: "item \<in> set (pushItems w cf k files []) \<Longrightarrow> folder item = cf"
proof (induction files arbitrary: k)
  case Nil
  then show ?case by simp
next
  case (Cons f fs)
  show ?case
  proof (cases "getFileType f")
    case None
    then show ?thesis using Cons by simp
  next
    case (Some t)
    then show ?thesis
      using Cons.prems Cons.IH [of "Suc k"] pushItems_acc [of w cf "Suc k" fs "[x]" for x] by auto
  qed
qed

lemma pushItems_length: "length (pushItems w cf k files []) = length (filter accepted files)"
  using pushItems_files [of w cf k files] by (metis length_map)

text \<open>
  Claim C1, as amended. When \<^verbatim>\<open>handleFiles\<close> goes on after its wait, the new list is
  one new item for each file whose MIME type starts with \<^verbatim>\<open>image/\<close> or
  \<^verbatim>\<open>video/\<close>, in the order of the files and each holding its file, followed by the
  items that were there, unchanged. Every new item has the folder that was current when
  \<^verbatim>\<open>handleFiles\<close> was called. A file of another type adds nothing.
\<close>

theorem handleFiles_adds_accepted:
  "length (mediaItems (handleFiles_resume w cl files st))
     = length (filter accepted files) + length (mediaItems st)
   \<and> drop (length (filter accepted files)) (mediaItems (handleFiles_resume w cl files st))
       = mediaItems st
   \<and> map file' (take (length (filter accepted files)) (mediaItems (handleFiles_resume w cl files st)))
       = filter accepted files
   \<and> (\<forall>item \<in> set (take (length (filter accepted files))
                        (mediaItems (handleFiles_resume w cl files st))).
         folder item = currentFolder cl)
   \<and> mediaItems (handleFiles w files st) = mediaItems (handleFiles_resume w st files st)"
proof -
  let ?new = "pushItems w (currentFolder cl) 0 files []"
  have m: "mediaItems (handleFiles_resume w cl files st) = ?new @ mediaItems st"
    by (simp add: handleFiles_resume_def)
  have n: "length ?new = length (filter accepted files)"
    by (rule pushItems_length)
  have t: "take (length (filter accepted files)) (mediaItems (handleFiles_resume w cl files st)) = ?new"
    using m n by simp
  have d: "drop (length (filter accepted files)) (mediaItems (handleFiles_resume w cl files st)) = mediaItems st"
    using m n by simp
  have f: "\<forall>item \<in> set ?new. folder item = currentFolder cl"
    using pushItems_folder by blast
  have h: "mediaItems (handleFiles w files st) = mediaItems (handleFiles_resume w st files st)"
    by (simp add: handleFiles_def handleFiles_resume_def handleFiles_start_def)
  show ?thesis
    using m n d f h pushItems_files [of w "currentFolder cl" 0 files] unfolding t by simp
qed

text \<open>Three files dropped on the first render: the image and the video are added to
  the default folder, the text file is not.\<close>

theorem handleFiles_adds_accepted_witness:
  "mediaItems (handleFiles exampleWorld
      [exampleFile ''cat.png'' ''image/png'', exampleFile ''notes.txt'' ''text/plain'',
       exampleFile ''clip.mp4'' ''video/mp4''] initialState)
   = [\<lparr>id' = str ''id-0'', type = image, url = str ''blob:0'',
        file' = exampleFile ''cat.png'' ''image/png'', thumbnailUrl = None,
        name = str ''cat.png'', timestamp = 1000, aiDescription = None, isGenerated = None,
        folder = str ''Genel''\<rparr>,
      \<lparr>id' = str ''id-2'', type = video, url = str ''blob:2'',
        file' = exampleFile ''clip.mp4'' ''video/mp4'', thumbnailUrl = None,
        name = str ''clip.mp4'', timestamp = 1002, aiDescription = None, isGenerated = None,
        folder = str ''Genel''\<rparr>]"
  using handleFiles_adds_accepted [of exampleWorld initialState
      "[exampleFile ''cat.png'' ''image/png'', exampleFile ''notes.txt'' ''text/plain'',
       exampleFile ''clip.mp4'' ''video/mp4'']" initialState]
  by (simp add: handleFiles_def handleFiles_resume_def handleFiles_start_def getFileType_def
      startsWith_def accepted_def exampleWorld_def exampleFile_def initialState_def
      DEFAULT_FOLDER_def str_def)

text \<open>
  Claim C1 as it was stated, one item for every file whatever its MIME type, fails at a
  text file: the list is as it was.
\<close>

theorem handleFiles_other_type_counterexample:
  "mediaItems (handleFiles exampleWorld [exampleFile ''notes.txt'' ''text/plain''] initialState)
     = mediaItems initialState"
  by (simp add: handleFiles_def handleFiles_resume_def handleFiles_start_def getFileType_def
      startsWith_def exampleFile_def str_def)

subsection \<open>C2: items are never removed\<close>

lemma idsKept_suffix:
  "suffix (map id' (mediaItems st)) (map id' (mediaItems st')) \<Longrightarrow> idsKept st st'"
  unfolding idsKept_def using set_mono_suffix suffix_length_le by fastforce

lemma idsKept_same: "mediaItems st' = mediaItems st \<Longrightarrow> idsKept st st'"
  by (simp add: idsKept_def)

lemma idsKept_handleFiles_resume: "idsKept st (handleFiles_resume w cl files st)"
  by (rule idsKept_suffix) (simp add: handleFiles_resume_def suffix_def)

lemma map_enumerate_eq:
  "(\<And>k x. h (k, x) = g x) \<Longrightarrow> map h (enumerate n xs) = map g xs"
  by (induction xs arbitrary: n) simp_all

lemma idsKept_handleSaveGenerated: "idsKept st (handleSaveGenerated w cl originalId b nm mode st)"
proof (cases "fetchBlob w b")
  case (Inl e)
  then show ?thesis by (simp add: handleSaveGenerated_def idsKept_same)
next
  case (Inr blob)
  show ?thesis
  proof (cases "mode = overwrite")
    case True
    with Inr show ?thesis
      by (intro idsKept_suffix) (simp add: handleSaveGenerated_def Let_def map_enumerate_eq [where g = id'])
  next
    case False
    with Inr show ?thesis
      by (intro idsKept_suffix) (simp add: handleSaveGenerated_def Let_def suffix_def)
  qed
qed

lemma map_id_handleUpdateItem:
  "p_id u = None \<Longrightarrow>
     map id' (mediaItems (handleUpdateItem sel i u st)) = map id' (mediaItems st)"
  by (simp add: mediaItems_handleUpdateItem spread_absent(1) cong: if_cong)

lemma idsKept_handleUpdateItem: "p_id u = None \<Longrightarrow> idsKept st (handleUpdateItem sel i u st)"
  by (rule idsKept_suffix) (simp add: map_id_handleUpdateItem)

lemma idsKept_addFolder: "idsKept st (addFolder st)"
  by (rule idsKept_same) (simp add: addFolder_def)

lemma idsKept_handleAction_resume: "idsKept (fst s) (fst (handleAction_resume cl item outcome s))"
  by (cases outcome) (simp_all add: handleAction_resume_def idsKept_same idsKept_handleUpdateItem noUpdates_def)

lemma idsKept_handleRename: "idsKept (fst s) (fst (handleRename item s))"
  by (cases s) (simp add: handleRename_def idsKept_same idsKept_handleUpdateItem noUpdates_def)

lemma idsKept_handleFolderChange: "idsKept st (handleFolderChange item v st)"
  by (simp add: handleFolderChange_def idsKept_handleUpdateItem noUpdates_def)

lemma idsKept_settle: "idsKept (app s) (app (settle w t s))"
proof (cases t)
  case (UploadTask cl files)
  then show ?thesis by (simp add: settle_def idsKept_handleFiles_resume)
next
  case (SaveTask cl originalId base64Url nm mode)
  then show ?thesis by (simp add: settle_def idsKept_handleSaveGenerated)
next
  case (ActionTask cl item p m)
  then show ?thesis
    using idsKept_handleAction_resume [of "(app s, m)" cl item]
    by (simp add: settle_def Let_def)
qed

lemma idsKept_step: "idsKept (app s) (app (step w e s))"
proof (cases e)
  case (Rename m)
  then show ?thesis
    using idsKept_handleRename [of "(app s, m)"]
    by (simp add: step_def idsKept_same split: option.split)
next
  case (FolderChange k)
  then show ?thesis
    by (simp add: step_def idsKept_same idsKept_handleFolderChange split: option.split)
next
  case (Settle k)
  then show ?thesis
    using idsKept_settle [of "s\<lparr>pending := take k (pending s) @ drop (Suc k) (pending s)\<rparr>" w]
    by (simp add: step_def idsKept_same)
next
  case (ExecuteSave m mode)
  then show ?thesis
    by (simp add: step_def idsKept_same split: option.split)
next
  case (Action m cp)
  then show ?thesis
    by (simp add: step_def idsKept_same split: option.split)
qed (simp_all add: step_def idsKept_same idsKept_addFolder handleDrag_def callHandleFiles_def
      handleFiles_start_def Let_def)

lemma idsKept_refl: "idsKept st st"
  by (simp add: idsKept_def)

lemma idsKept_trans: "idsKept st st' \<Longrightarrow> idsKept st' st'' \<Longrightarrow> idsKept st st''"
  unfolding idsKept_def by (meson order_trans)

lemma idsKept_run: "idsKept (app s) (app (run evs s))"
proof (induction evs arbitrary: s)
  case Nil
  show ?case by (simp add: idsKept_refl)
next
  case (Cons we evs)
  obtain w e where we: "we = (w, e)" by (cases we)
  have "idsKept (app s) (app (step w e s))"
    by (rule idsKept_step)
  moreover have "idsKept (app (step w e s)) (app (run evs (step w e s)))"
    by (rule Cons.IH)
  ultimately show ?case using we by (auto intro: idsKept_trans)
qed

text \<open>
  Claim C2. No operation of the gallery removes an item: \<^verbatim>\<open>handleFiles\<close>,
  \<^verbatim>\<open>handleSaveGenerated\<close> in both modes, \<^verbatim>\<open>addFolder\<close>, and
  \<^verbatim>\<open>handleUpdateItem\<close> in each of the calls the program makes of it (with a name, with
  a folder, with an analysis) keep every id of \<^verbatim>\<open>mediaItems\<close> and do not shorten the
  list. So does every step of the gallery, whatever the event and whatever the world
  answers, and so does every run. \<^verbatim>\<open>handleUpdateItem\<close> keeps the length of the list
  whatever the updates.
\<close>

theorem mediaItems_never_removed:
  "idsKept st (handleFiles_resume w cl files st)
   \<and> idsKept st (handleFiles w files st)
   \<and> idsKept st (handleSaveGenerated w cl originalId base64Url nm new st)
   \<and> idsKept st (handleSaveGenerated w cl originalId base64Url nm overwrite st)
   \<and> idsKept st (handleUpdateItem sel i (noUpdates\<lparr>p_name := Some n\<rparr>) st)
   \<and> idsKept st (handleUpdateItem sel i (noUpdates\<lparr>p_folder := Some f\<rparr>) st)
   \<and> idsKept st (handleUpdateItem sel i (noUpdates\<lparr>p_aiDescription := Some (Some a)\<rparr>) st)
   \<and> length (mediaItems (handleUpdateItem sel i u st)) = length (mediaItems st)
   \<and> idsKept st (addFolder st)
   \<and> idsKept (app s) (app (step w e s))
   \<and> idsKept (app s) (app (run evs s))"
proof -
  have files: "idsKept st (handleFiles w files st)"
    using idsKept_handleFiles_resume [of st w st files]
    by (simp add: idsKept_def handleFiles_def handleFiles_resume_def handleFiles_start_def)
  have len: "length (mediaItems (handleUpdateItem sel i u st)) = length (mediaItems st)"
    by (simp add: mediaItems_handleUpdateItem)
  have rename: "idsKept st (handleUpdateItem sel i (noUpdates\<lparr>p_name := Some n\<rparr>) st)"
    by (rule idsKept_handleUpdateItem) (simp add: noUpdates_def)
  have move: "idsKept st (handleUpdateItem sel i (noUpdates\<lparr>p_folder := Some f\<rparr>) st)"
    by (rule idsKept_handleUpdateItem) (simp add: noUpdates_def)
  have analysis:
    "idsKept st (handleUpdateItem sel i (noUpdates\<lparr>p_aiDescription := Some (Some a)\<rparr>) st)"
    by (rule idsKept_handleUpdateItem) (simp add: noUpdates_def)
  from files len rename move analysis show ?thesis
    using idsKept_handleFiles_resume idsKept_handleSaveGenerated idsKept_addFolder
      idsKept_step idsKept_run by blast
qed

text \<open>
  A picture comes in, is opened, renamed and overwritten by a generated one: its id is
  there after every step. A text file that comes in afterwards changes nothing.
\<close>

theorem mediaItems_never_removed_witness:
  "map id' (mediaItems (app (run
      [(exampleWorld, ChangeFiles [exampleFile ''cat.png'' ''image/png'']),
       (exampleWorld, Settle 0),
       (exampleWorld, ClickItem 0),
       (exampleWorld, Rename ((exampleModal [])\<lparr>tempName := str ''lion''\<rparr>)),
       (exampleWorld, ExecuteSave
          ((exampleModal [])\<lparr>generatedImageUrl := Some (str ''data:image/png;base64,QUJD'')\<rparr>)
          overwrite),
       (exampleWorld, Settle 0),
       (exampleWorld, DropFiles [exampleFile ''notes.txt'' ''text/plain'']),
       (exampleWorld, Settle 0)] initialSystem)))
     = [str ''id-0'']
   \<and> map name (mediaItems (app (run
      [(exampleWorld, ChangeFiles [exampleFile ''cat.png'' ''image/png'']),
       (exampleWorld, Settle 0),
       (exampleWorld, ClickItem 0),
       (exampleWorld, Rename ((exampleModal [])\<lparr>tempName := str ''lion''\<rparr>)),
       (exampleWorld, ExecuteSave
          ((exampleModal [])\<lparr>generatedImageUrl := Some (str ''data:image/png;base64,QUJD'')\<rparr>)
          overwrite),
       (exampleWorld, Settle 0),
       (exampleWorld, DropFiles [exampleFile ''notes.txt'' ''text/plain'']),
       (exampleWorld, Settle 0)] initialSystem)))
     = [str ''Edited-cat'']
   \<and> idsKept (app initialSystem) (app (run
      [(exampleWorld, ChangeFiles [exampleFile ''cat.png'' ''image/png'']),
       (exampleWorld, Settle 0)] initialSystem))"
  using mediaItems_never_removed
    [where s = initialSystem
       and evs = "[(exampleWorld, ChangeFiles [exampleFile ''cat.png'' ''image/png'']),
                   (exampleWorld, Settle 0)]"]
  by (simp add: step_def settle_def callHandleFiles_def handleFiles_start_def
      handleFiles_resume_def getFileType_def startsWith_def filteredItems_def matchesType_def
      handleRename_def handleUpdateItem_def spread_def override_def noUpdates_def
      executeSave_def handleSaveGenerated_def generatedFile_def trim_def isWhiteSpace_def
      initialSystem_def initialState_def exampleWorld_def exampleModal_def exampleFile_def
      DEFAULT_FOLDER_def str_def Let_def)

subsection \<open>C10: the frame of an overwrite\<close>

lemma mediaItems_overwrite:
  "fetchBlob w b = Inr blob \<Longrightarrow>
   mediaItems (handleSaveGenerated w cl originalId b nm overwrite st) =
     map (\<lambda>(k, item).
            if id' item = originalId
            then item\<lparr>url := createObjectURL w 0, file' := generatedFile nm blob, name := nm,
                     isGenerated := Some True, timestamp := dateNow w k\<rparr>
            else item)
       (enumerate 0 (mediaItems st))"
  by (simp add: handleSaveGenerated_def Let_def)

text \<open>
  Claim C10. When the fetch succeeds, \<^verbatim>\<open>handleSaveGenerated\<close> in mode
  \<^verbatim>\<open>overwrite\<close> keeps the length and the order of \<^verbatim>\<open>mediaItems\<close>; an item whose id
  differs from \<open>originalId\<close> is the same item afterwards, and an item with that id keeps
  its id, type, thumbnail, analysis and folder and gets the new url, file and name, the
  time of the update, and \<^verbatim>\<open>isGenerated: true\<close>. When the fetch fails nothing changes.
\<close>

theorem handleSaveGenerated_overwrite_frame:
  "(fetchBlob w b = Inr blob \<longrightarrow>
      length (mediaItems (handleSaveGenerated w cl originalId b nm overwrite st))
        = length (mediaItems st)
      \<and> (\<forall>k < length (mediaItems st).
            mediaItems (handleSaveGenerated w cl originalId b nm overwrite st) ! k =
              (if id' (mediaItems st ! k) = originalId
               then \<lparr>id' = id' (mediaItems st ! k), type = type (mediaItems st ! k),
                     url = createObjectURL w 0, file' = generatedFile nm blob,
                     thumbnailUrl = thumbnailUrl (mediaItems st ! k), name = nm,
                     timestamp = dateNow w k,
                     aiDescription = aiDescription (mediaItems st ! k),
                     isGenerated = Some True, folder = folder (mediaItems st ! k)\<rparr>
               else mediaItems st ! k)))
   \<and> (fetchBlob w b = Inl e \<longrightarrow> handleSaveGenerated w cl originalId b nm overwrite st = st)"
proof -
  have fail: "fetchBlob w b = Inl e \<longrightarrow> handleSaveGenerated w cl originalId b nm overwrite st = st"
    by (simp add: handleSaveGenerated_def)
  have ok: "length (mediaItems (handleSaveGenerated w cl originalId b nm overwrite st))
        = length (mediaItems st)
      \<and> (\<forall>k < length (mediaItems st).
            mediaItems (handleSaveGenerated w cl originalId b nm overwrite st) ! k =
              (if id' (mediaItems st ! k) = originalId
               then \<lparr>id' = id' (mediaItems st ! k), type = type (mediaItems st ! k),
                     url = createObjectURL w 0, file' = generatedFile nm blob,
                     thumbnailUrl = thumbnailUrl (mediaItems st ! k), name = nm,
                     timestamp = dateNow w k,
                     aiDescription = aiDescription (mediaItems st ! k),
                     isGenerated = Some True, folder = folder (mediaItems st ! k)\<rparr>
               else mediaItems st ! k))"
    if f: "fetchBlob w b = Inr blob"
    by (auto simp add: mediaItems_overwrite [OF f] nth_enumerate_eq intro: MediaItem.equality)
  from fail ok show ?thesis by blast
qed

text \<open>Overwriting \<open>b\<close> in a gallery of two items.\<close>

theorem handleSaveGenerated_overwrite_frame_witness:
  "fetchBlob exampleWorld (str ''data:image/png;base64,AAAA'')
     = Inr \<lparr>blob_type = str ''image/png'', blob_bytes = [137, 80]\<rparr>
   \<and> mediaItems (handleSaveGenerated exampleWorld initialState (str ''b'')
        (str ''data:image/png;base64,AAAA'') (str ''Edited-dog'') overwrite
        (initialState\<lparr>mediaItems := [exampleItem ''a'' ''cat'' image DEFAULT_FOLDER,
                                       exampleItem ''b'' ''dog'' image (str ''Tatil'')]\<rparr>))
     = [exampleItem ''a'' ''cat'' image DEFAULT_FOLDER,
        \<lparr>id' = str ''b'', type = image, url = str ''blob:0'',
         file' = \<lparr>file_name = str ''Edited-dog.png'', file_type = str ''image/png'',
                  file_bytes = [137, 80]\<rparr>,
         thumbnailUrl = None, name = str ''Edited-dog'', timestamp = 1001,
         aiDescription = None, isGenerated = Some True, folder = str ''Tatil''\<rparr>]"
  using handleSaveGenerated_overwrite_frame [of exampleWorld "str ''data:image/png;base64,AAAA''"
      "\<lparr>blob_type = str ''image/png'', blob_bytes = [137, 80]\<rparr>" initialState "str ''b''"
      "str ''Edited-dog''"
      "initialState\<lparr>mediaItems := [exampleItem ''a'' ''cat'' image DEFAULT_FOLDER,
                                       exampleItem ''b'' ''dog'' image (str ''Tatil'')]\<rparr>"]
  by (simp add: handleSaveGenerated_def generatedFile_def exampleWorld_def exampleItem_def
      exampleFile_def str_def DEFAULT_FOLDER_def Let_def)

subsection \<open>C8: the filter\<close>

lemma startsWith_prefix: "startsWith s q \<longleftrightarrow> (\<exists>post. s = q @ post)"
proof
  assume "startsWith s q"
  then have "s = q @ drop (length q) s"
    unfolding startsWith_def by (metis append_take_drop_id)
  then show "\<exists>post. s = q @ post" ..
next
  assume "\<exists>post. s = q @ post"
  then show "startsWith s q" by (auto simp: startsWith_def)
qed

lemma includes'_substring: "includes' s q \<longleftrightarrow> (\<exists>pre post. s = pre @ q @ post)"
proof (induction s)
  case Nil
  show ?case by simp
next
  case (Cons c s)
  show ?case
  proof
    assume "includes' (c # s) q"
    then consider "startsWith (c # s) q" | "includes' s q" by auto
    then show "\<exists>pre post. c # s = pre @ q @ post"
    proof cases
      case 1
      then obtain post where "c # s = q @ post" using startsWith_prefix by blast
      then have "c # s = [] @ q @ post" by simp
      then show ?thesis by blast
    next
      case 2
      then obtain pre post where "s = pre @ q @ post" using Cons.IH by blast
      then have "c # s = (c # pre) @ q @ post" by simp
      then show ?thesis by blast
    qed
  next
    assume "\<exists>pre post. c # s = pre @ q @ post"
    then obtain pre post where eq: "c # s = pre @ q @ post" by blast
    show "includes' (c # s) q"
    proof (cases pre)
      case Nil
      with eq have "startsWith (c # s) q" using startsWith_prefix by auto
      then show ?thesis by simp
    next
      case (Cons d pre')
      with eq have "s = pre' @ q @ post" by simp
      then have "includes' s q" using Cons.IH by blast
      then show ?thesis by simp
    qed
  qed
qed

lemma matchesType_iff: "matchesType tf item \<longleftrightarrow> (tf = all \<or> tf = only (type item))"
  by (cases tf) (auto simp: matchesType_def)

text \<open>
  Claim C8. \<^verbatim>\<open>filteredItems\<close> is the items of \<^verbatim>\<open>mediaItems\<close> that are to be shown,
  each as often as it occurs and in the order of \<^verbatim>\<open>mediaItems\<close>. With an empty
  query, whose lower-casing is empty, only the folder and the type decide.
\<close>

theorem filteredItems_exact:
  "filteredItems lower st = filter (shown lower st) (mediaItems st)
   \<and> subseq (filteredItems lower st) (mediaItems st)
   \<and> (item \<in> set (filteredItems lower st) \<longleftrightarrow> item \<in> set (mediaItems st) \<and> shown lower st item)
   \<and> (lower [] = [] \<and> searchQuery st = [] \<longrightarrow>
        filteredItems lower st =
          filter (\<lambda>item. folder item = currentFolder st
                    \<and> (typeFilter st = all \<or> typeFilter st = only (type item)))
            (mediaItems st))"
proof -
  have eq: "filteredItems lower st = filter (shown lower st) (mediaItems st)"
    unfolding filteredItems_def shown_def
    by (simp add: includes'_substring matchesType_iff)
  have emp: "lower [] = [] \<and> searchQuery st = [] \<longrightarrow>
        filteredItems lower st =
          filter (\<lambda>item. folder item = currentFolder st
                    \<and> (typeFilter st = all \<or> typeFilter st = only (type item)))
            (mediaItems st)"
    unfolding filteredItems_def
    by (auto simp add: includes'_substring matchesType_iff intro!: filter_cong)
  from eq emp show ?thesis by simp
qed

text \<open>The query \<open>CAT\<close> in the default folder finds \<open>Cat\<close> and \<open>catalogue\<close>; the empty
  query shows the whole folder.\<close>

theorem filteredItems_exact_witness:
  "filteredItems (toLowerCase exampleWorld)
      (initialState\<lparr>mediaItems := [exampleItem ''a'' ''Cat'' image DEFAULT_FOLDER,
                                     exampleItem ''b'' ''dog'' image DEFAULT_FOLDER,
                                     exampleItem ''c'' ''catalogue'' video DEFAULT_FOLDER,
                                     exampleItem ''d'' ''scatter'' image (str ''Tatil'')],
                     searchQuery := str ''CAT''\<rparr>)
     = [exampleItem ''a'' ''Cat'' image DEFAULT_FOLDER,
        exampleItem ''c'' ''catalogue'' video DEFAULT_FOLDER]
   \<and> toLowerCase exampleWorld [] = []
   \<and> filteredItems (toLowerCase exampleWorld)
      (initialState\<lparr>mediaItems := [exampleItem ''a'' ''Cat'' image DEFAULT_FOLDER,
                                     exampleItem ''d'' ''scatter'' image (str ''Tatil'')]\<rparr>)
     = [exampleItem ''a'' ''Cat'' image DEFAULT_FOLDER]"
  using filteredItems_exact [of "toLowerCase exampleWorld"
      "initialState\<lparr>mediaItems := [exampleItem ''a'' ''Cat'' image DEFAULT_FOLDER,
                                     exampleItem ''d'' ''scatter'' image (str ''Tatil'')]\<rparr>"
      "exampleItem ''a'' ''Cat'' image DEFAULT_FOLDER"]
  by (simp add: filteredItems_def matchesType_def startsWith_def initialState_def
      exampleWorld_def exampleItem_def exampleFile_def DEFAULT_FOLDER_def str_def)

subsection \<open>C5: renaming\<close>

lemma spread_name: "spread item (noUpdates\<lparr>p_name := Some n\<rparr>) = item\<lparr>name := n\<rparr>"
  by (simp add: spread_def override_def noUpdates_def)

text \<open>
  Claim C5. When the trimmed \<^verbatim>\<open>tempName\<close> is not empty, \<^verbatim>\<open>handleRename\<close> gives
  every item of \<^verbatim>\<open>mediaItems\<close> that has the id of the modal's item the name
  \<^verbatim>\<open>tempName\<close> (as typed, not trimmed) and leaves the other items as they are, and a
  selected item with that id gets the same name. When the trimmed name is empty, neither
  the gallery nor the modal changes.
\<close>

theorem handleRename_list_and_modal:
  "(trim (tempName m) \<noteq> [] \<longrightarrow>
      length (mediaItems (fst (handleRename item (st, m)))) = length (mediaItems st)
      \<and> (\<forall>k < length (mediaItems st).
            mediaItems (fst (handleRename item (st, m))) ! k =
              (if id' (mediaItems st ! k) = id' item
               then (mediaItems st ! k)\<lparr>name := tempName m\<rparr>
               else mediaItems st ! k))
      \<and> (\<forall>sel. selectedItem st = Some sel \<and> id' sel = id' item \<longrightarrow>
            selectedItem (fst (handleRename item (st, m))) = Some (sel\<lparr>name := tempName m\<rparr>)))
   \<and> (trim (tempName m) = [] \<longrightarrow> handleRename item (st, m) = (st, m))"
proof -
  have empty: "trim (tempName m) = [] \<longrightarrow> handleRename item (st, m) = (st, m)"
    by (simp add: handleRename_def)
  have renamed: "length (mediaItems (fst (handleRename item (st, m)))) = length (mediaItems st)
      \<and> (\<forall>k < length (mediaItems st).
            mediaItems (fst (handleRename item (st, m))) ! k =
              (if id' (mediaItems st ! k) = id' item
               then (mediaItems st ! k)\<lparr>name := tempName m\<rparr>
               else mediaItems st ! k))
      \<and> (\<forall>sel. selectedItem st = Some sel \<and> id' sel = id' item \<longrightarrow>
            selectedItem (fst (handleRename item (st, m))) = Some (sel\<lparr>name := tempName m\<rparr>))"
    if t: "trim (tempName m) \<noteq> []"
  proof -
    have f: "fst (handleRename item (st, m)) =
        handleUpdateItem (selectedItem st) (id' item) (noUpdates\<lparr>p_name := Some (tempName m)\<rparr>) st"
      using t by (simp add: handleRename_def)
    have l: "mediaItems (fst (handleRename item (st, m))) =
        map (\<lambda>x. if id' x = id' item then x\<lparr>name := tempName m\<rparr> else x) (mediaItems st)"
      unfolding f by (simp add: mediaItems_handleUpdateItem spread_name)
    have s: "\<forall>sel. selectedItem st = Some sel \<and> id' sel = id' item \<longrightarrow>
            selectedItem (fst (handleRename item (st, m))) = Some (sel\<lparr>name := tempName m\<rparr>)"
      unfolding f by (simp add: handleUpdateItem_def Let_def spread_name)
    from l s show ?thesis by simp
  qed
  from empty renamed show ?thesis by blast
qed

text \<open>Renaming the selected item \<open>a\<close> to \<open>lion\<close> with a blank on each side; and a
  rename to two blanks, which does nothing.\<close>

theorem handleRename_list_and_modal_witness:
  "trim (str '' lion '') \<noteq> []
   \<and> fst (handleRename (exampleItem ''a'' ''cat'' image DEFAULT_FOLDER)
       (initialState\<lparr>mediaItems := [exampleItem ''b'' ''dog'' video DEFAULT_FOLDER,
                                      exampleItem ''a'' ''cat'' image DEFAULT_FOLDER],
                      selectedItem := Some (exampleItem ''a'' ''cat'' image DEFAULT_FOLDER)\<rparr>,
        \<lparr>prompt = [], status = IDLE, resultText = None, generatedImageUrl = None,
         isEditingName = True, tempName = str '' lion '', showSaveOptions = False,
         saveName = []\<rparr>))
     = initialState\<lparr>mediaItems := [exampleItem ''b'' ''dog'' video DEFAULT_FOLDER,
                        (exampleItem ''a'' ''cat'' image DEFAULT_FOLDER)\<lparr>name := str '' lion ''\<rparr>],
         selectedItem := Some ((exampleItem ''a'' ''cat'' image DEFAULT_FOLDER)\<lparr>name := str '' lion ''\<rparr>)\<rparr>
   \<and> trim (str ''  '') = []
   \<and> handleRename (exampleItem ''a'' ''cat'' image DEFAULT_FOLDER)
       (initialState\<lparr>mediaItems := [exampleItem ''a'' ''cat'' image DEFAULT_FOLDER]\<rparr>,
        \<lparr>prompt = [], status = IDLE, resultText = None, generatedImageUrl = None,
         isEditingName = True, tempName = str ''  '', showSaveOptions = False,
         saveName = []\<rparr>)
     = (initialState\<lparr>mediaItems := [exampleItem ''a'' ''cat'' image DEFAULT_FOLDER]\<rparr>,
        \<lparr>prompt = [], status = IDLE, resultText = None, generatedImageUrl = None,
         isEditingName = True, tempName = str ''  '', showSaveOptions = False,
         saveName = []\<rparr>)"
  using handleRename_list_and_modal [of
      "\<lparr>prompt = [], status = IDLE, resultText = None, generatedImageUrl = None,
         isEditingName = True, tempName = str '' lion '', showSaveOptions = False,
         saveName = []\<rparr>"
      "exampleItem ''a'' ''cat'' image DEFAULT_FOLDER"
      "initialState\<lparr>mediaItems := [exampleItem ''b'' ''dog'' video DEFAULT_FOLDER,
                                      exampleItem ''a'' ''cat'' image DEFAULT_FOLDER],
                      selectedItem := Some (exampleItem ''a'' ''cat'' image DEFAULT_FOLDER)\<rparr>"]
    handleRename_list_and_modal [of
      "\<lparr>prompt = [], status = IDLE, resultText = None, generatedImageUrl = None,
         isEditingName = True, tempName = str ''  '', showSaveOptions = False,
         saveName = []\<rparr>"
      "exampleItem ''a'' ''cat'' image DEFAULT_FOLDER"
      "initialState\<lparr>mediaItems := [exampleItem ''a'' ''cat'' image DEFAULT_FOLDER]\<rparr>"]
  by (simp add: handleRename_def handleUpdateItem_def spread_def override_def noUpdates_def
      trim_def isWhiteSpace_def exampleItem_def exampleFile_def initialState_def str_def Let_def)

subsection \<open>C3: a failed call of the service\<close>

lemma editImageWithGemini_sent:
  "\<exists>rs. snd (editImageWithGemini w f p sent) = sent @ rs \<and> length rs \<le> 1"
  by (simp add: editImageWithGemini_def Let_def split: sum.split)

lemma analyzeVideoWithGemini_sent:
  "\<exists>rs. snd (analyzeVideoWithGemini w f p sent) = sent @ rs \<and> length rs \<le> 1"
  by (simp add: analyzeVideoWithGemini_def Let_def split: sum.split)

lemma callGemini_sent:
  "\<exists>rs. snd (callGemini w item p sent) = sent @ rs \<and> length rs \<le> 1"
  using editImageWithGemini_sent [of w "file' item" p sent]
    analyzeVideoWithGemini_sent [of w "file' item" p sent]
  by (simp add: callGemini_def)

text \<open>
  Claim C3. When the prompt is not blank and the call \<^verbatim>\<open>handleAction\<close> awaits throws,
  whichever of the two services it is and whatever it throws, the gallery is as it was
  (so \<^verbatim>\<open>mediaItems\<close> is), the status is \<^verbatim>\<open>ERROR\<close> and the result text is
  \<^verbatim>\<open>Bir hata olu\<close>U+015F\<^verbatim>\<open>tu. L\<close>U+00FC\<^verbatim>\<open>tfen tekrar deneyin.\<close>
  \<^verbatim>\<open>(Dosya boyutu \<close>U+00E7\<^verbatim>\<open>ok b\<close>U+00FC\<^verbatim>\<open>y\<close>U+00FC\<^verbatim>\<open>k olabilir)\<close>,
  the same for every error. The requests sent are those sent before and at most one
  more: no second attempt. The continuation alone, on whatever state it finds, does the
  same. The text is spelled out, and given once more code unit by code unit.
\<close>

theorem handleAction_error:
  "(trim (promptToUse customPrompt m) \<noteq> []
      \<and> fst (callGemini w item (promptToUse customPrompt m) sent) = Inl e \<longrightarrow>
        handleAction w item customPrompt (st, m, sent) =
          (st,
           m\<lparr>status := ERROR,
             resultText := Some (str ''Bir hata olu'' @ [0x15F] @ str ''tu. L'' @ [0xFC]
               @ str ''tfen tekrar deneyin. (Dosya boyutu '' @ [0xE7]
               @ str ''ok b'' @ [0xFC] @ str ''y'' @ [0xFC] @ str ''k olabilir)'')\<rparr>,
           snd (callGemini w item (promptToUse customPrompt m) sent)))
   \<and> (\<exists>rs. snd (callGemini w item (promptToUse customPrompt m) sent) = sent @ rs
          \<and> length rs \<le> 1)
   \<and> handleAction_resume cl item (Inl e) (st', m') =
        (st',
         m'\<lparr>resultText := Some (str ''Bir hata olu'' @ [0x15F] @ str ''tu. L'' @ [0xFC]
               @ str ''tfen tekrar deneyin. (Dosya boyutu '' @ [0xE7]
               @ str ''ok b'' @ [0xFC] @ str ''y'' @ [0xFC] @ str ''k olabilir)''),
            status := ERROR\<rparr>)
   \<and> str ''Bir hata olu'' @ [0x15F] @ str ''tu. L'' @ [0xFC]
               @ str ''tfen tekrar deneyin. (Dosya boyutu '' @ [0xE7]
               @ str ''ok b'' @ [0xFC] @ str ''y'' @ [0xFC] @ str ''k olabilir)'' =
          [66, 105, 114, 32, 104, 97, 116, 97, 32, 111, 108, 117, 351, 116, 117, 46,
           32, 76, 252, 116, 102, 101, 110, 32, 116, 101, 107, 114, 97, 114, 32, 100,
           101, 110, 101, 121, 105, 110, 46, 32, 40, 68, 111, 115, 121, 97, 32, 98,
           111, 121, 117, 116, 117, 32, 231, 111, 107, 32, 98, 252, 121, 252, 107, 32,
           111, 108, 97, 98, 105, 108, 105, 114, 41]"
proof -
  have a: "trim (promptToUse customPrompt m) \<noteq> []
      \<and> fst (callGemini w item (promptToUse customPrompt m) sent) = Inl e \<longrightarrow>
        handleAction w item customPrompt (st, m, sent) =
          (st, m\<lparr>status := ERROR, resultText := Some GENERIC_ERROR\<rparr>,
           snd (callGemini w item (promptToUse customPrompt m) sent))"
    by (simp add: handleAction_def handleAction_resume_def Let_def)
  have b: "handleAction_resume cl item (Inl e) (st', m') =
        (st', m'\<lparr>resultText := Some GENERIC_ERROR, status := ERROR\<rparr>)"
    by (simp add: handleAction_resume_def)
  have u: "GENERIC_ERROR =
          [66, 105, 114, 32, 104, 97, 116, 97, 32, 111, 108, 117, 351, 116, 117, 46,
           32, 76, 252, 116, 102, 101, 110, 32, 116, 101, 107, 114, 97, 114, 32, 100,
           101, 110, 101, 121, 105, 110, 46, 32, 40, 68, 111, 115, 121, 97, 32, 98,
           111, 121, 117, 116, 117, 32, 231, 111, 107, 32, 98, 252, 121, 252, 107, 32,
           111, 108, 97, 98, 105, 108, 105, 114, 41]"
    by (simp add: GENERIC_ERROR_def str_def)
  from a b u callGemini_sent [of w item "promptToUse customPrompt m" sent] show ?thesis
    unfolding GENERIC_ERROR_def by blast
qed

text \<open>An image edit against a service that answers 503: the gallery is as it was, one
  request was sent, and the result text is the generic one.\<close>

theorem handleAction_error_witness:
  "trim (promptToUse None (exampleModal ''make it brighter'')) \<noteq> []
   \<and> fst (callGemini exampleWorld (exampleItem ''a'' ''cat'' image DEFAULT_FOLDER)
        (promptToUse None (exampleModal ''make it brighter'')) [])
       = Inl (RequestFailed (str ''503''))
   \<and> handleAction exampleWorld (exampleItem ''a'' ''cat'' image DEFAULT_FOLDER) None
       (initialState\<lparr>mediaItems := [exampleItem ''a'' ''cat'' image DEFAULT_FOLDER]\<rparr>,
        exampleModal ''make it brighter'', [])
     = (initialState\<lparr>mediaItems := [exampleItem ''a'' ''cat'' image DEFAULT_FOLDER]\<rparr>,
        (exampleModal ''make it brighter'')
          \<lparr>status := ERROR,
           resultText := Some
          [66, 105, 114, 32, 104, 97, 116, 97, 32, 111, 108, 117, 351, 116, 117, 46,
           32, 76, 252, 116, 102, 101, 110, 32, 116, 101, 107, 114, 97, 114, 32, 100,
           101, 110, 101, 121, 105, 110, 46, 32, 40, 68, 111, 115, 121, 97, 32, 98,
           111, 121, 117, 116, 117, 32, 231, 111, 107, 32, 98, 252, 121, 252, 107, 32,
           111, 108, 97, 98, 105, 108, 105, 114, 41]\<rparr>,
        [\<lparr>model = str ''gemini-2.5-flash-image'',
          req_text = str ''make it brighter (Return only the image, high quality)'',
          req_mimeType = str ''image/png'', req_data = Some (str ''AAAA'')\<rparr>])"
  using handleAction_error [of None "exampleModal ''make it brighter''" exampleWorld
      "exampleItem ''a'' ''cat'' image DEFAULT_FOLDER" "[]" "RequestFailed (str ''503'')"
      "initialState\<lparr>mediaItems := [exampleItem ''a'' ''cat'' image DEFAULT_FOLDER]\<rparr>"]
  by (simp add: callGemini_def editImageWithGemini_def fileToBase64_def split_comma_1_def
      promptToUse_def trim_def isWhiteSpace_def exampleModal_def exampleWorld_def
      exampleItem_def exampleFile_def str_def Let_def)

subsection \<open>C4: what editImageWithGemini returns\<close>

lemma find_Some_holds: "find P xs = Some x \<Longrightarrow> x \<in> set xs \<and> P x"
  by (induction xs) (auto split: if_splits)

lemma firstInlineImage_find:
  "firstInlineImage ps =
     (case find (\<lambda>part. inlineBytes part \<noteq> []) ps of
        Some part \<Rightarrow> Some (PNG_PREFIX @ inlineBytes part)
      | None \<Rightarrow> None)"
  by (induction ps) (auto simp: inlineBytes_def split: option.splits)

lemma imageOfResponse_find:
  "imageOfResponse r =
     (case find (\<lambda>part. inlineBytes part \<noteq> []) (firstCandidateParts r) of
        Some part \<Rightarrow> Inr (PNG_PREFIX @ inlineBytes part)
      | None \<Rightarrow> Inl (Error NO_IMAGE))"
  by (auto simp: imageOfResponse_def firstCandidateParts_def firstInlineImage_find
      split: option.splits list.splits)

lemma firstInlineImage_mimeType:
  "firstInlineImage (map (withMimeType mt) ps) = firstInlineImage ps"
  by (induction ps) (auto simp: withMimeType_def split: option.splits)

lemma imageOfResponse_cases:
  "(\<exists>bytes. imageOfResponse r = Inr (PNG_PREFIX @ bytes)) \<or> imageOfResponse r = Inl (Error NO_IMAGE)"
  unfolding imageOfResponse_find by (auto split: option.splits)

lemma editImageWithGemini_cases:
  "fst (editImageWithGemini w f p sent) = Inr u \<Longrightarrow> \<exists>bytes. u = PNG_PREFIX @ bytes"
proof -
  assume u: "fst (editImageWithGemini w f p sent) = Inr u"
  then obtain r where "imageOfResponse r = Inr u"
    by (auto simp: editImageWithGemini_def Let_def split: sum.splits)
  with imageOfResponse_cases [of r] show ?thesis by auto
qed

text \<open>
  Claim C4. From a response, \<^verbatim>\<open>editImageWithGemini\<close> returns the PNG prefix followed
  by the inline data of the first part of the first candidate that has any, and throws the
  \<^verbatim>\<open>Error\<close> when no part has: a data URL comes back exactly when such a part
  exists. The declared MIME type of the parts plays no role. Whatever the function
  returns is the PNG prefix followed by bytes, never a text of the response.
\<close>

theorem editImageWithGemini_image_or_error:
  "imageOfResponse r =
     (case find (\<lambda>part. inlineBytes part \<noteq> []) (firstCandidateParts r) of
        Some part \<Rightarrow> Inr (PNG_PREFIX @ inlineBytes part)
      | None \<Rightarrow> Inl (Error NO_IMAGE))
   \<and> ((\<exists>bytes. imageOfResponse r = Inr (PNG_PREFIX @ bytes)) \<longleftrightarrow>
        (\<exists>part \<in> set (firstCandidateParts r). inlineBytes part \<noteq> []))
   \<and> ((\<forall>part \<in> set (firstCandidateParts r). inlineBytes part = []) \<longrightarrow>
        imageOfResponse r = Inl (Error NO_IMAGE))
   \<and> firstInlineImage (map (withMimeType mt) ps) = firstInlineImage ps
   \<and> (fileToBase64 w f = Inr b
        \<and> generateContent w (length sent)
             \<lparr>model = str ''gemini-2.5-flash-image'',
              req_text = p @ str '' (Return only the image, high quality)'',
              req_mimeType = file_type f, req_data = b\<rparr> = Inr r \<longrightarrow>
        fst (editImageWithGemini w f p sent) = imageOfResponse r)
   \<and> (fst (editImageWithGemini w f p sent) = Inr u \<longrightarrow> (\<exists>bytes. u = PNG_PREFIX @ bytes))"
proof -
  have iff: "(\<exists>bytes. imageOfResponse r = Inr (PNG_PREFIX @ bytes)) \<longleftrightarrow>
        (\<exists>part \<in> set (firstCandidateParts r). inlineBytes part \<noteq> [])"
    unfolding imageOfResponse_find
    by (auto simp: find_None_iff dest: find_Some_holds split: option.splits)
  have none: "(\<forall>part \<in> set (firstCandidateParts r). inlineBytes part = []) \<longrightarrow>
        imageOfResponse r = Inl (Error NO_IMAGE)"
    unfolding imageOfResponse_find
    by (auto simp: find_None_iff dest: find_Some_holds split: option.splits)
  have call: "fileToBase64 w f = Inr b
        \<and> generateContent w (length sent)
             \<lparr>model = str ''gemini-2.5-flash-image'',
              req_text = p @ str '' (Return only the image, high quality)'',
              req_mimeType = file_type f, req_data = b\<rparr> = Inr r \<longrightarrow>
        fst (editImageWithGemini w f p sent) = imageOfResponse r"
    by (simp add: editImageWithGemini_def Let_def)
  from iff none call imageOfResponse_find [of r] firstInlineImage_mimeType [of mt ps]
    editImageWithGemini_cases [of w f p sent u]
  show ?thesis by blast
qed


text \<open>A response with a text and a JPEG part, a response with a text only, and the whole
  call against a service that answers with a JPEG part.\<close>

theorem editImageWithGemini_image_or_error_witness:
  "imageOfResponse (exampleResponse [textPart ''Here it is'', inlinePart ''image/jpeg'' ''QUJD''])
     = Inr (str ''data:image/png;base64,QUJD'')
   \<and> inlineBytes (textPart ''Sorry'') = []
   \<and> imageOfResponse (exampleResponse [textPart ''Sorry'']) = Inl (Error NO_IMAGE)
   \<and> fst (editImageWithGemini
        (exampleWorld\<lparr>generateContent := (\<lambda>n q. Inr (exampleResponse [inlinePart ''image/jpeg'' ''QUJD'']))\<rparr>)
        (exampleFile ''cat.png'' ''image/png'') (str ''brighter'') [])
     = Inr (str ''data:image/png;base64,QUJD'')"
  using editImageWithGemini_image_or_error [of "exampleResponse [textPart ''Sorry'']"]
    editImageWithGemini_image_or_error
      [of "exampleResponse [inlinePart ''image/jpeg'' ''QUJD'']" None "[]"
        "exampleWorld\<lparr>generateContent := (\<lambda>n q. Inr (exampleResponse [inlinePart ''image/jpeg'' ''QUJD'']))\<rparr>"
        "exampleFile ''cat.png'' ''image/png''" "Some (str ''AAAA'')" "[]" "str ''brighter''"
        "str ''data:image/png;base64,QUJD''"]
  by (simp add: imageOfResponse_def firstCandidateParts_def inlineBytes_def PNG_PREFIX_def
      editImageWithGemini_def fileToBase64_def split_comma_1_def exampleResponse_def
      textPart_def inlinePart_def exampleWorld_def exampleFile_def str_def Let_def)

subsection \<open>C7: the folders\<close>

lemma folders_handleUpdateItem: "folders (handleUpdateItem sel i u st) = folders st"
  by (simp add: handleUpdateItem_def Let_def)

lemma folders_handleFiles_resume: "folders (handleFiles_resume w cl files st) = folders st"
  by (simp add: handleFiles_resume_def)

lemma folders_handleSaveGenerated:
  "folders (handleSaveGenerated w cl originalId b nm mode st) = folders st"
  by (simp add: handleSaveGenerated_def Let_def split: sum.split)

lemma folders_handleAction_resume:
  "folders (fst (handleAction_resume cl item outcome s)) = folders (fst s)"
  by (simp add: handleAction_resume_def folders_handleUpdateItem split: sum.split)

lemma folders_handleRename: "folders (fst (handleRename item s)) = folders (fst s)"
  by (cases s) (simp add: handleRename_def folders_handleUpdateItem)

lemma folders_handleFolderChange: "folders (handleFolderChange item v st) = folders st"
  by (simp add: handleFolderChange_def folders_handleUpdateItem)

lemma folders_settle: "folders (app (settle w t s)) = folders (app s)"
  by (cases t)
    (simp_all add: settle_def Let_def folders_handleFiles_resume folders_handleSaveGenerated
      folders_handleAction_resume)

lemma folders_step:
  "folders (app (step w e s)) = (if e = AddFolder then folders (addFolder (app s)) else folders (app s))"
proof (cases e)
  case (Rename m)
  then show ?thesis
    using folders_handleRename [of _ "(app s, m)"] by (simp add: step_def split: option.split)
next
  case (FolderChange k)
  then show ?thesis
    by (simp add: step_def folders_handleFolderChange split: option.split)
next
  case (ExecuteSave m mode)
  then show ?thesis by (simp add: step_def split: option.split)
next
  case (Action m cp)
  then show ?thesis by (simp add: step_def split: option.split)
next
  case (Settle k)
  then show ?thesis by (simp add: step_def folders_settle)
qed (simp_all add: step_def handleDrag_def callHandleFiles_def handleFiles_start_def Let_def)

lemma folders_addFolder:
  "folders (addFolder st) =
     (if trim (newFolderInput st) \<noteq> [] \<and> trim (newFolderInput st) \<notin> set (folders st)
      then folders st @ [trim (newFolderInput st)] else folders st)"
  by (simp add: addFolder_def)

lemma prefix_folders_step: "prefix (folders (app s)) (folders (app (step w e s)))"
  by (simp add: folders_step folders_addFolder)

lemma distinct_folders_step:
  "distinct (folders (app s)) \<Longrightarrow> distinct (folders (app (step w e s)))"
  by (simp add: folders_step folders_addFolder)

lemma distinct_folders_run:
  "distinct (folders (app s)) \<Longrightarrow> distinct (folders (app (run evs s)))"
proof (induction evs arbitrary: s)
  case Nil
  then show ?case by simp
next
  case (Cons we evs)
  obtain w e where we: "we = (w, e)" by (cases we)
  from Cons.prems have "distinct (folders (app (step w e s)))"
    by (rule distinct_folders_step)
  then show ?case using Cons.IH we by simp
qed

lemma prefix_folders_run: "prefix (folders (app s)) (folders (app (run evs s)))"
proof (induction evs arbitrary: s)
  case Nil
  show ?case by simp
next
  case (Cons we evs)
  obtain w e where we: "we = (w, e)" by (cases we)
  have "prefix (folders (app s)) (folders (app (step w e s)))"
    by (rule prefix_folders_step)
  moreover have "prefix (folders (app (step w e s))) (folders (app (run evs (step w e s))))"
    by (rule Cons.IH)
  ultimately show ?case using we by (auto intro: prefix_order.trans)
qed

lemma distinct_initial: "distinct (folders (app initialSystem))"
  by (simp add: initialSystem_def initialState_def DEFAULT_FOLDER_def str_def)

text \<open>
  Claim C7. \<^verbatim>\<open>addFolder\<close> appends the trimmed input to \<^verbatim>\<open>folders\<close> when it is not
  empty and not yet a folder, and leaves \<^verbatim>\<open>folders\<close> as it is otherwise. No other
  handler writes \<^verbatim>\<open>folders\<close>: after any run from the first render the folders are
  pairwise distinct, and the folders before a step, or before a run, are the first ones
  of the folders after it.
\<close>

theorem addFolder_duplicate_check:
  "folders (addFolder st) =
     (if trim (newFolderInput st) \<noteq> [] \<and> trim (newFolderInput st) \<notin> set (folders st)
      then folders st @ [trim (newFolderInput st)] else folders st)
   \<and> distinct (folders (app (run evs initialSystem)))
   \<and> prefix (folders (app s)) (folders (app (step w e s)))
   \<and> prefix (folders (app s)) (folders (app (run evs s)))"
  using folders_addFolder [of st] distinct_folders_run [OF distinct_initial, of evs]
    prefix_folders_step [of s w e] prefix_folders_run [of s evs]
  by blast

text \<open>Adding \<open>Okul\<close>, then \<open>Tatil\<close> again, then a blank name: only the first is
  appended.\<close>

theorem addFolder_duplicate_check_witness:
  "folders (app (run [(exampleWorld, TypeNewFolder (str '' Okul '')), (exampleWorld, AddFolder),
       (exampleWorld, TypeNewFolder (str ''Tatil  '')), (exampleWorld, AddFolder),
       (exampleWorld, TypeNewFolder (str ''   '')), (exampleWorld, AddFolder)] initialSystem))
     = [str ''Genel'', str ''Favoriler'', [0x130, 0x15F], str ''Tatil'', str ''Okul'']
   \<and> distinct [str ''Genel'', str ''Favoriler'', [0x130, 0x15F], str ''Tatil'', str ''Okul'']"
  using addFolder_duplicate_check [of initialState
      "[(exampleWorld, TypeNewFolder (str '' Okul '')), (exampleWorld, AddFolder),
       (exampleWorld, TypeNewFolder (str ''Tatil  '')), (exampleWorld, AddFolder),
       (exampleWorld, TypeNewFolder (str ''   '')), (exampleWorld, AddFolder)]"
      initialSystem exampleWorld AddFolder]
  by (simp add: step_def addFolder_def trim_def isWhiteSpace_def initialSystem_def
      initialState_def DEFAULT_FOLDER_def str_def)

subsection \<open>C6: an item is created in a folder that exists\<close>

lemma foldersCover_mono:
  "foldersCover fs st \<Longrightarrow> set fs \<subseteq> set fs' \<Longrightarrow> foldersCover fs' st"
  by (auto simp: foldersCover_def split: option.splits)

lemma foldersCover_fields:
  "mediaItems st' = mediaItems st \<Longrightarrow> selectedItem st' = selectedItem st \<Longrightarrow>
   currentFolder st' = currentFolder st \<Longrightarrow> foldersCover fs st' = foldersCover fs st"
  by (simp add: foldersCover_def)

lemma folder_spread:
  "folder (spread item u) = (case p_folder u of Some f \<Rightarrow> f | None \<Rightarrow> folder item)"
  by (simp add: spread_def override_def)

lemma foldersCover_handleUpdateItem:
  assumes "foldersCover fs st"
    and "case p_folder u of Some f \<Rightarrow> f \<in> set fs | None \<Rightarrow> True"
  shows "foldersCover fs (handleUpdateItem sel i u st)"
  using assms
  by (auto simp: foldersCover_def handleUpdateItem_def Let_def folder_spread split: option.splits)

lemma foldersCover_handleFiles_resume:
  assumes "foldersCover fs st" and "currentFolder cl \<in> set fs"
  shows "foldersCover fs (handleFiles_resume w cl files st)"
  using assms
  by (auto simp: foldersCover_def handleFiles_resume_def dest: pushItems_folder)

lemma find_Some_in: "find P xs = Some x \<Longrightarrow> x \<in> set xs"
  by (induction xs) (auto split: if_splits)

lemma folder_newItem:
  "foldersCover fs cl \<Longrightarrow> folder (newItem w cl originalId nm blob) \<in> set fs"
  by (auto simp: newItem_def Let_def foldersCover_def dest: find_Some_in split: option.splits)

lemma foldersCover_alt:
  "foldersCover fs st \<longleftrightarrow>
     currentFolder st \<in> set fs \<and> set (map folder (mediaItems st)) \<subseteq> set fs
     \<and> (case selectedItem st of Some item \<Rightarrow> folder item \<in> set fs | None \<Rightarrow> True)"
  by (auto simp: foldersCover_def)

lemma foldersCover_handleSaveGenerated:
  assumes st: "foldersCover fs st" and cl: "foldersCover fs cl"
  shows "foldersCover fs (handleSaveGenerated w cl originalId b nm mode st)"
proof (cases "fetchBlob w b")
  case (Inl e)
  with st show ?thesis by (simp add: handleSaveGenerated_def)
next
  case (Inr blob)
  show ?thesis
  proof (cases "mode = overwrite")
    case True
    with Inr st show ?thesis
      by (auto simp: foldersCover_alt handleSaveGenerated_def Let_def
          map_enumerate_eq [where g = folder] split: option.splits)
  next
    case False
    with Inr st folder_newItem [OF cl, of w originalId nm blob] show ?thesis
      by (auto simp: handleSaveGenerated_def Let_def foldersCover_def split: option.splits)
  qed
qed

lemma foldersCover_handleAction_resume:
  "foldersCover fs (fst s) \<Longrightarrow> foldersCover fs (fst (handleAction_resume cl item outcome s))"
  by (cases outcome)
    (simp_all add: handleAction_resume_def foldersCover_handleUpdateItem noUpdates_def)

lemma foldersCover_handleRename:
  "foldersCover fs (fst s) \<Longrightarrow> foldersCover fs (fst (handleRename item s))"
  by (cases s) (simp add: handleRename_def foldersCover_handleUpdateItem noUpdates_def)

lemma foldersCover_handleFolderChange:
  "foldersCover fs st \<Longrightarrow> v \<in> set fs \<Longrightarrow> foldersCover fs (handleFolderChange item v st)"
  by (simp add: handleFolderChange_def foldersCover_handleUpdateItem noUpdates_def)

lemma foldersCover_addFolder:
  "foldersCover (folders st) st \<Longrightarrow> foldersCover (folders (addFolder st)) (addFolder st)"
  by (auto simp: addFolder_def foldersCover_def split: option.splits)

lemma set_folders_addFolder: "set (folders st) \<subseteq> set (folders (addFolder st))"
  by (auto simp: addFolder_def)

lemma filteredItems_subset: "set (filteredItems lower st) \<subseteq> set (mediaItems st)"
  by (auto simp: filteredItems_def)

text \<open>The invariant with the folders held apart, for the steps that leave them alone.\<close>

lemma invariantI:
  "foldersCover (folders (app s)) (app s) \<Longrightarrow>
   (\<And>t. t \<in> set (pending s) \<Longrightarrow> foldersCover (folders (app s)) (closureOf t)) \<Longrightarrow>
   invariant s"
  by (simp add: invariant_def)

lemma invariant_app: "invariant s \<Longrightarrow> foldersCover (folders (app s)) (app s)"
  by (simp add: invariant_def)

lemma invariant_pending:
  "invariant s \<Longrightarrow> t \<in> set (pending s) \<Longrightarrow> foldersCover (folders (app s)) (closureOf t)"
  by (simp add: invariant_def)

lemma invariant_settle:
  assumes inv: "invariant s" and k: "k < length (pending s)"
  shows "invariant (settle w (pending s ! k)
           (s\<lparr>pending := take k (pending s) @ drop (Suc k) (pending s)\<rparr>))"
proof -
  let ?t = "pending s ! k"
  let ?s1 = "s\<lparr>pending := take k (pending s) @ drop (Suc k) (pending s)\<rparr>"
  have t: "foldersCover (folders (app s)) (closureOf ?t)"
    using inv k by (simp add: invariant_pending)
  have a: "foldersCover (folders (app s)) (app s)"
    using inv by (rule invariant_app)
  have rest: "set (pending ?s1) \<subseteq> set (pending s)"
    using set_take_subset [of k "pending s"] set_drop_subset [of "Suc k" "pending s"] by auto
  have pend: "pending (settle w ?t ?s1) = pending ?s1"
    by (cases ?t) (simp_all add: settle_def Let_def)
  have fol: "folders (app (settle w ?t ?s1)) = folders (app s)"
    using folders_settle [of w ?t ?s1] by simp
  have cover: "foldersCover (folders (app s)) (app (settle w ?t ?s1))"
  proof (cases ?t)
    case (UploadTask cl files)
    with t have "currentFolder cl \<in> set (folders (app s))" by (simp add: foldersCover_def)
    with a UploadTask show ?thesis by (simp add: settle_def foldersCover_handleFiles_resume)
  next
    case (SaveTask cl originalId base64Url nm mode)
    with t a show ?thesis by (simp add: settle_def foldersCover_handleSaveGenerated)
  next
    case (ActionTask cl item p m)
    with a foldersCover_handleAction_resume [of "folders (app s)" "(app s, m)" cl item]
    show ?thesis by (simp add: settle_def Let_def)
  qed
  show ?thesis
  proof (rule invariantI)
    show "foldersCover (folders (app (settle w ?t ?s1))) (app (settle w ?t ?s1))"
      using cover fol by simp
  next
    fix t' assume "t' \<in> set (pending (settle w ?t ?s1))"
    then have "t' \<in> set (pending s)" using pend rest by auto
    then show "foldersCover (folders (app (settle w ?t ?s1))) (closureOf t')"
      using inv fol by (simp add: invariant_pending)
  qed
qed

lemma invariant_same_pending:
  assumes "invariant s" and "pending s' = pending s" and "folders (app s') = folders (app s)"
    and "foldersCover (folders (app s)) (app s')"
  shows "invariant s'"
  using assms by (simp add: invariant_def)

lemma invariant_new_task:
  assumes "invariant s" and "pending s' = pending s @ [t]"
    and "foldersCover (folders (app s)) (closureOf t)"
    and "folders (app s') = folders (app s)" and "foldersCover (folders (app s)) (app s')"
  shows "invariant s'"
  using assms by (auto simp: invariant_def)

lemma invariant_step: "invariant s \<Longrightarrow> invariant (step w e s)"
proof (cases e)
  case (DragEvent ty)
  assume inv: "invariant s"
  show ?thesis
    by (rule invariant_same_pending [OF inv])
      (use inv DragEvent in \<open>simp_all add: step_def handleDrag_def invariant_def foldersCover_def\<close>)
next
  case (DropFiles files)
  assume inv: "invariant s"
  show ?thesis
  proof (cases "files = []")
    case True
    show ?thesis
      by (rule invariant_same_pending [OF inv])
        (use inv DropFiles True in \<open>simp_all add: step_def invariant_def foldersCover_def\<close>)
  next
    case False
    show ?thesis
      by (rule invariant_new_task [OF inv, where t = "UploadTask ((app s)\<lparr>dragActive := False\<rparr>) files"])
        (use inv DropFiles False in \<open>simp_all add: step_def callHandleFiles_def handleFiles_start_def foldersCover_def invariant_def\<close>)
  qed
next
  case (ChangeFiles files)
  assume inv: "invariant s"
  show ?thesis
  proof (cases "files = []")
    case True
    with inv ChangeFiles show ?thesis by (simp add: step_def)
  next
    case False
    show ?thesis
      by (rule invariant_new_task [OF inv, where t = "UploadTask (app s) files"])
        (use inv ChangeFiles False in \<open>simp_all add: step_def callHandleFiles_def handleFiles_start_def foldersCover_def invariant_def\<close>)
  qed
next
  case (ClickFolder k)
  assume inv: "invariant s"
  show ?thesis
    by (rule invariant_same_pending [OF inv])
      (use inv ClickFolder in \<open>simp_all add: step_def invariant_def foldersCover_def\<close>)
next
  case (TypeNewFolder v)
  assume inv: "invariant s"
  show ?thesis
    by (rule invariant_same_pending [OF inv])
      (use inv TypeNewFolder in \<open>simp_all add: step_def invariant_def foldersCover_def\<close>)
next
  case BlurNewFolder
  assume inv: "invariant s"
  show ?thesis
    by (rule invariant_same_pending [OF inv])
      (use inv BlurNewFolder in \<open>simp_all add: step_def invariant_def foldersCover_def\<close>)
next
  case ClickShowNewFolder
  assume inv: "invariant s"
  show ?thesis
    by (rule invariant_same_pending [OF inv])
      (use inv ClickShowNewFolder in \<open>simp_all add: step_def invariant_def foldersCover_def\<close>)
next
  case AddFolder
  assume inv: "invariant s"
  have a: "foldersCover (folders (addFolder (app s))) (addFolder (app s))"
    using inv by (simp add: invariant_app foldersCover_addFolder)
  have p: "\<And>t. t \<in> set (pending s) \<Longrightarrow> foldersCover (folders (addFolder (app s))) (closureOf t)"
    using inv set_folders_addFolder [of "app s"]
    by (blast intro: foldersCover_mono invariant_pending)
  show ?thesis
    by (rule invariantI) (use AddFolder a p in \<open>simp_all add: step_def\<close>)
next
  case (TypeSearch v)
  assume inv: "invariant s"
  show ?thesis
    by (rule invariant_same_pending [OF inv])
      (use inv TypeSearch in \<open>simp_all add: step_def invariant_def foldersCover_def\<close>)
next
  case (ClickTypeFilter tf)
  assume inv: "invariant s"
  show ?thesis
    by (rule invariant_same_pending [OF inv])
      (use inv ClickTypeFilter in \<open>simp_all add: step_def invariant_def foldersCover_def\<close>)
next
  case (ClickItem k)
  assume inv: "invariant s"
  have "k < length (filteredItems (toLowerCase w) (app s)) \<Longrightarrow>
      folder (filteredItems (toLowerCase w) (app s) ! k) \<in> set (folders (app s))"
    using inv filteredItems_subset [of "toLowerCase w" "app s"] nth_mem
    by (fastforce simp: invariant_def foldersCover_def)
  then show ?thesis
    by (intro invariant_same_pending [OF inv])
      (use inv ClickItem in \<open>simp_all add: step_def invariant_def foldersCover_def\<close>)
next
  case CloseModal
  assume inv: "invariant s"
  show ?thesis
    by (rule invariant_same_pending [OF inv])
      (use inv CloseModal in \<open>simp_all add: step_def invariant_def foldersCover_def\<close>)
next
  case (Rename m)
  assume inv: "invariant s"
  show ?thesis
  proof (cases "selectedItem (app s)")
    case None
    with inv Rename show ?thesis by (simp add: step_def)
  next
    case (Some item)
    show ?thesis
      by (rule invariant_same_pending [OF inv])
        (use inv Rename Some folders_handleRename [of item "(app s, m)"]
          foldersCover_handleRename [of "folders (app s)" "(app s, m)" item]
          in \<open>simp_all add: step_def invariant_app\<close>)
  qed
next
  case (FolderChange k)
  assume inv: "invariant s"
  show ?thesis
  proof (cases "selectedItem (app s)")
    case None
    with inv FolderChange show ?thesis by (simp add: step_def)
  next
    case (Some item)
    show ?thesis
    proof (cases "k < length (folders (app s))")
      case True
      show ?thesis
        by (rule invariant_same_pending [OF inv])
          (use inv FolderChange Some True in \<open>simp_all add: step_def invariant_app
            folders_handleFolderChange foldersCover_handleFolderChange\<close>)
    next
      case False
      with inv FolderChange Some show ?thesis by (simp add: step_def)
    qed
  qed
next
  case (ExecuteSave m mode)
  assume inv: "invariant s"
  show ?thesis
  proof (cases "selectedItem (app s)")
    case None
    with inv ExecuteSave show ?thesis by (simp add: step_def)
  next
    case (Some item)
    show ?thesis
    proof (cases "fst (executeSave item mode m)")
      case None
      with inv ExecuteSave Some show ?thesis by (simp add: step_def)
    next
      case (Some args)
      obtain oid u nm md where args: "args = (oid, u, nm, md)" by (cases args)
      show ?thesis
        by (rule invariant_new_task [OF inv, where t = "SaveTask (app s) oid u nm md"])
          (use inv ExecuteSave \<open>selectedItem (app s) = Some item\<close> Some args
            in \<open>simp_all add: step_def invariant_app\<close>)
    qed
  qed
next
  case (Action m cp)
  assume inv: "invariant s"
  show ?thesis
  proof (cases "selectedItem (app s)")
    case None
    with inv Action show ?thesis by (simp add: step_def)
  next
    case (Some item)
    show ?thesis
    proof (cases "trim (promptToUse cp m) = []")
      case True
      with inv Action Some show ?thesis by (simp add: step_def)
    next
      case False
      show ?thesis
        by (rule invariant_new_task [OF inv, where t = "ActionTask (app s) item (promptToUse cp m) (m\<lparr>status := PROCESSING\<rparr>)"])
          (use inv Action Some False in \<open>simp_all add: step_def invariant_app\<close>)
    qed
  qed
next
  case (Settle k)
  assume inv: "invariant s"
  show ?thesis
  proof (cases "k < length (pending s)")
    case True
    with Settle invariant_settle [OF inv True, of w] show ?thesis by (simp add: step_def)
  next
    case False
    with inv Settle show ?thesis by (simp add: step_def)
  qed
qed

lemma invariant_run: "invariant s \<Longrightarrow> invariant (run evs s)"
proof (induction evs arbitrary: s)
  case Nil
  then show ?case by simp
next
  case (Cons we evs)
  obtain w e where we: "we = (w, e)" by (cases we)
  from Cons.prems have "invariant (step w e s)" by (rule invariant_step)
  then show ?case using Cons.IH we by simp
qed

lemma invariant_initial: "invariant initialSystem"
  by (simp add: invariant_def foldersCover_def initialSystem_def initialState_def)


lemma created_settle:
  "\<exists>rest. mediaItems (app (settle w t s)) = createdBy w t @ rest
        \<and> length rest = length (mediaItems (app s))"
proof (cases t)
  case (UploadTask cl files)
  then show ?thesis by (simp add: settle_def createdBy_def handleFiles_resume_def)
next
  case (SaveTask cl originalId base64Url nm mode)
  then show ?thesis
    by (cases "fetchBlob w base64Url")
      (simp_all add: settle_def createdBy_def handleSaveGenerated_def Let_def)
next
  case (ActionTask cl item p m)
  then show ?thesis
    by (cases "fst (callGemini w item p (requests s))")
      (simp_all add: settle_def createdBy_def handleAction_resume_def Let_def
        mediaItems_handleUpdateItem)
qed

lemma created_none:
  "created w e s = [] \<Longrightarrow> length (mediaItems (app (step w e s))) = length (mediaItems (app s)) \<Longrightarrow>
   \<exists>rest. mediaItems (app (step w e s)) = created w e s @ rest
        \<and> length rest = length (mediaItems (app s))"
  by simp

lemma created_step:
  "\<exists>rest. mediaItems (app (step w e s)) = created w e s @ rest
        \<and> length rest = length (mediaItems (app s))"
proof (cases e)
  case (Settle k)
  show ?thesis
  proof (cases "k < length (pending s)")
    case True
    with Settle
      created_settle [of w "pending s ! k" "s\<lparr>pending := take k (pending s) @ drop (Suc k) (pending s)\<rparr>"]
    show ?thesis by (simp add: step_def created_def)
  next
    case False
    with Settle show ?thesis by (simp add: step_def created_def)
  qed
next
  case (Rename m)
  then show ?thesis
    by (intro created_none)
      (simp_all add: created_def step_def handleRename_def mediaItems_handleUpdateItem
        split: option.split)
next
  case (FolderChange k)
  then show ?thesis
    by (intro created_none)
      (simp_all add: created_def step_def handleFolderChange_def mediaItems_handleUpdateItem
        split: option.split)
next
  case (ExecuteSave m mode)
  then show ?thesis
    by (intro created_none) (simp_all add: created_def step_def split: option.split)
next
  case (Action m cp)
  then show ?thesis
    by (intro created_none) (simp_all add: created_def step_def split: option.split)
qed (simp_all add: created_def step_def handleDrag_def callHandleFiles_def handleFiles_start_def
      addFolder_def Let_def)

lemma created_folder:
  assumes inv: "invariant s" and item: "item \<in> set (created w e s)"
  shows "folder item \<in> set (folders (app s))"
proof (cases e)
  case (Settle k)
  with item have k: "k < length (pending s)" and c: "item \<in> set (createdBy w (pending s ! k))"
    by (auto simp: created_def split: if_splits)
  have cover: "foldersCover (folders (app s)) (closureOf (pending s ! k))"
    using inv k by (simp add: invariant_pending)
  show ?thesis
  proof (cases "pending s ! k")
    case (UploadTask cl files)
    with c have "folder item = currentFolder cl"
      by (auto simp: createdBy_def dest: pushItems_folder)
    with cover UploadTask show ?thesis by (simp add: foldersCover_def)
  next
    case (SaveTask cl originalId base64Url nm mode)
    with c obtain blob where "item = newItem w cl originalId nm blob"
      by (auto simp: createdBy_def split: sum.splits if_splits)
    with cover SaveTask show ?thesis by (simp add: folder_newItem)
  next
    case (ActionTask cl it p m)
    with c show ?thesis by (simp add: createdBy_def)
  qed
qed (use item in \<open>simp_all add: created_def\<close>)

lemma set_folders_step: "set (folders (app s)) \<subseteq> set (folders (app (step w e s)))"
  using prefix_folders_step [of s w e] by (rule set_mono_prefix)

text \<open>
  Claim C6. After any run of the gallery from its first render, the current folder is one
  of the folders, and whatever the next step creates (the items of an upload that goes on,
  with the folder that was current when the files came in; the item of a save as new,
  with the folder of the original or else the folder that was current at the call) is in
  a folder of the list of that moment, as is every item of the gallery. What a step
  creates is the new head of \<^verbatim>\<open>mediaItems\<close>, before as many items as there were; and
  no step takes a folder away.
\<close>

theorem created_in_existing_folder:
  "invariant (run evs initialSystem)
   \<and> currentFolder (app (run evs initialSystem)) \<in> set (folders (app (run evs initialSystem)))
   \<and> (\<forall>item \<in> set (created w e (run evs initialSystem)).
         folder item \<in> set (folders (app (run evs initialSystem))))
   \<and> (\<forall>item \<in> set (mediaItems (app (run evs initialSystem))).
         folder item \<in> set (folders (app (run evs initialSystem))))
   \<and> (\<exists>rest. mediaItems (app (step w e s)) = created w e s @ rest
         \<and> length rest = length (mediaItems (app s)))
   \<and> set (folders (app s)) \<subseteq> set (folders (app (step w e s)))"
proof -
  have inv: "invariant (run evs initialSystem)"
    using invariant_initial by (rule invariant_run)
  then have cover: "foldersCover (folders (app (run evs initialSystem))) (app (run evs initialSystem))"
    by (rule invariant_app)
  from inv cover created_folder [OF inv] created_step [of w e s] set_folders_step [of s w e]
  show ?thesis by (auto simp: foldersCover_def)
qed

text \<open>
  The last folder is chosen, a picture comes in, and the second folder is chosen during
  the wait: the item made when the upload goes on is in the last folder, which is still
  a folder.
\<close>

theorem created_in_existing_folder_witness:
  "created exampleWorld (Settle 0)
     (run [(exampleWorld, ClickFolder 3),
           (exampleWorld, ChangeFiles [exampleFile ''cat.png'' ''image/png'']),
           (exampleWorld, ClickFolder 1)] initialSystem)
     = [\<lparr>id' = str ''id-0'', type = image, url = str ''blob:0'',
         file' = exampleFile ''cat.png'' ''image/png'', thumbnailUrl = None,
         name = str ''cat.png'', timestamp = 1000, aiDescription = None, isGenerated = None,
         folder = str ''Tatil''\<rparr>]
   \<and> folders (app (run [(exampleWorld, ClickFolder 3),
           (exampleWorld, ChangeFiles [exampleFile ''cat.png'' ''image/png'']),
           (exampleWorld, ClickFolder 1)] initialSystem))
     = [str ''Genel'', str ''Favoriler'', [0x130, 0x15F], str ''Tatil'']
   \<and> currentFolder (app (run [(exampleWorld, ClickFolder 3),
           (exampleWorld, ChangeFiles [exampleFile ''cat.png'' ''image/png'']),
           (exampleWorld, ClickFolder 1)] initialSystem))
     = str ''Favoriler''"
  using created_in_existing_folder [of
      "[(exampleWorld, ClickFolder 3),
        (exampleWorld, ChangeFiles [exampleFile ''cat.png'' ''image/png'']),
        (exampleWorld, ClickFolder 1)]" exampleWorld "Settle 0" initialSystem]
  by (simp add: created_def createdBy_def step_def callHandleFiles_def handleFiles_start_def
      getFileType_def startsWith_def initialSystem_def initialState_def exampleWorld_def
      exampleFile_def DEFAULT_FOLDER_def str_def)

end
